theory Spec2Isabelle
  imports Complex_Main
begin

section \<open>Data model of \<^verbatim>\<open>rmg/structure.py\<close>\<close>

text \<open>
  The Python exceptions that the modelled routines can raise. The argument of
  \<open>InvalidAdjacencyListException\<close> is its \<^verbatim>\<open>label\<close> attribute.
\<close>

datatype error =
    InvalidAdjacencyListException string
  | UnboundLocalError
  | AttributeError
  | KeyError
  | IndexError
  | ValueError
  | DomainError

text \<open>
  Sequencing of a computation that may raise: the first exception aborts what follows.
\<close>

definition ebind :: "error + 'a \<Rightarrow> ('a \<Rightarrow> error + 'b) \<Rightarrow> error + 'b" where
  "ebind m f = (case m of Inl e \<Rightarrow> Inl e | Inr x \<Rightarrow> f x)"

text \<open>
  Modelled from the spec: the classes \<^verbatim>\<open>chem.AtomType\<close>, \<^verbatim>\<open>chem.ElectronState\<close>,
  \<^verbatim>\<open>chem.BondType\<close>, \<^verbatim>\<open>chem.Atom\<close> and \<^verbatim>\<open>chem.Bond\<close> (module \<^verbatim>\<open>chem\<close> is imported by
  \<^verbatim>\<open>structure.py\<close> but is not part of the sources). An atom type has a label and the
  symbol of its element (\<^verbatim>\<open>atomType.label\<close>, \<^verbatim>\<open>atomType.element.symbol\<close>); an electron
  state has a label and a radical order; a bond type is one of single, benzene, double
  and triple with the codes \<^verbatim>\<open>S\<close>, \<^verbatim>\<open>B\<close>, \<^verbatim>\<open>D\<close>, \<^verbatim>\<open>T\<close> and the orders 1, 1.5, 2, 3.
  Atoms and bonds hold a list of candidates; they are resolved when the list has exactly
  one element.
\<close>

record atomType =
  at_label :: string
  at_symbol :: string

record electronState =
  es_label :: string
  es_order :: int

datatype bondType = S | B | D | T

fun bt_label :: "bondType \<Rightarrow> string" where
  "bt_label S = ''S''"
| "bt_label B = ''B''"
| "bt_label D = ''D''"
| "bt_label T = ''T''"

fun bt_order :: "bondType \<Rightarrow> rat" where
  "bt_order S = 1"
| "bt_order B = 3 / 2"
| "bt_order D = 2"
| "bt_order T = 3"

record atom =
  a_atomType :: "atomType list"
  a_electronState :: "electronState list"
  a_charge :: int
  a_label :: string

text \<open>
  The endpoints of a bond (\<^verbatim>\<open>bond.atoms\<close>) are references to atom objects. An atom
  object is identified by its position in the vertex list of the structure that owns it,
  a bond object by its position in the edge list.
\<close>

record bond =
  b_atoms :: "nat \<times> nat"
  b_bondType :: "bondType list"

text \<open>
  Modelled from the spec: the container \<^verbatim>\<open>graph.Graph\<close> (module \<^verbatim>\<open>graph\<close> is not part of
  the sources). \<open>s_atoms\<close> is \<^verbatim>\<open>graph.vertices()\<close> and \<open>s_bonds\<close> is \<^verbatim>\<open>graph.edges()\<close>,
  both in iteration order.
\<close>

record "structure" =
  s_atoms :: "atom list"
  s_bonds :: "bond list"

text \<open>
  Modelled from the spec: \<^verbatim>\<open>graph.getEdges(atom)\<close>, the bonds incident to \<open>a\<close> keyed by
  the other endpoint, as pairs of the other atom and the bond, in edge order.
\<close>

fun incident :: "nat \<Rightarrow> nat \<times> bond \<Rightarrow> (nat \<times> nat) list" where
  "incident a (k, b) =
     (if fst (b_atoms b) = a then [(snd (b_atoms b), k)]
      else if snd (b_atoms b) = a then [(fst (b_atoms b), k)]
      else [])"

definition getBonds :: "structure \<Rightarrow> nat \<Rightarrow> (nat \<times> nat) list" where
  "getBonds s a = concat (map (incident a) (enumerate 0 (s_bonds s)))"

text \<open>
  Modelled from the spec: the properties \<^verbatim>\<open>atom.electronState\<close>, \<^verbatim>\<open>atom.atomType\<close> and
  \<^verbatim>\<open>bond.bondType\<close> give the single candidate of a resolved object and the whole list
  otherwise; reading an attribute of the list is the unresolved-model error.
\<close>

fun electronState_order :: "atom \<Rightarrow> error + int" where
  "electronState_order a =
     (case a_electronState a of [e] \<Rightarrow> Inr (es_order e) | _ \<Rightarrow> Inl AttributeError)"

fun bondType_order :: "bond \<Rightarrow> error + rat" where
  "bondType_order b =
     (case b_bondType b of [t] \<Rightarrow> Inr (bt_order t) | _ \<Rightarrow> Inl AttributeError)"

text \<open>
  Modelled from the spec: \<^verbatim>\<open>bond.canIncreaseOrder()\<close> and \<^verbatim>\<open>bond.canDecreaseOrder()\<close>:
  the order is not at the domain maximum 3, respectively not at the domain minimum 1.
\<close>

definition canIncreaseOrder :: "bond \<Rightarrow> error + bool" where
  "canIncreaseOrder b = ebind (bondType_order b) (\<lambda>r. Inr (r \<noteq> 3))"

definition canDecreaseOrder :: "bond \<Rightarrow> error + bool" where
  "canDecreaseOrder b = ebind (bondType_order b) (\<lambda>r. Inr (r \<noteq> 1))"

section \<open>Labelled atoms\<close>

text \<open>\<^verbatim>\<open>Structure.getLabeledAtom\<close>: the first atom, in iteration order, with the label.\<close>

fun getLabeledAtom_loop :: "atom list \<Rightarrow> nat \<Rightarrow> string \<Rightarrow> nat option" where
  "getLabeledAtom_loop [] i l = None"
| "getLabeledAtom_loop (a # as) i l =
     (if a_label a = l then Some i else getLabeledAtom_loop as (Suc i) l)"

definition getLabeledAtom :: "structure \<Rightarrow> string \<Rightarrow> nat option" where
  "getLabeledAtom s l = getLabeledAtom_loop (s_atoms s) 0 l"

section \<open>Building and copying structures\<close>

text \<open>
  Modelled from the spec: \<^verbatim>\<open>graph.addVertex\<close> inserts a vertex with no incident edges
  (every element of an atom list is an object of its own, so the vertex is never present
  already); \<^verbatim>\<open>graph.addEdge\<close> inserts an edge keyed by the unordered pair of its
  endpoints and fails with a domain error if an endpoint is not a vertex.
\<close>

definition addAtom :: "structure \<Rightarrow> atom \<Rightarrow> error + structure" where
  "addAtom s a = Inr (s\<lparr>s_atoms := s_atoms s @ [a]\<rparr>)"

definition same_pair :: "nat \<times> nat \<Rightarrow> nat \<times> nat \<Rightarrow> bool" where
  "same_pair p q = (p = q \<or> p = (snd q, fst q))"

definition addBond :: "structure \<Rightarrow> bond \<Rightarrow> error + structure" where
  "addBond s b =
     (if fst (b_atoms b) < length (s_atoms s) \<and> snd (b_atoms b) < length (s_atoms s)
      then Inr (s\<lparr>s_bonds :=
             filter (\<lambda>c. \<not> same_pair (b_atoms c) (b_atoms b)) (s_bonds s) @ [b]\<rparr>)
      else Inl DomainError)"

text \<open>
  A \<^verbatim>\<open>for\<close> loop whose body may raise and updates the structure.
\<close>

fun efold :: "('s \<Rightarrow> 'a \<Rightarrow> error + 's) \<Rightarrow> 's \<Rightarrow> 'a list \<Rightarrow> error + 's" where
  "efold f s [] = Inr s"
| "efold f s (x # xs) = ebind (f s x) (\<lambda>s'. efold f s' xs)"

text \<open>
  \<^verbatim>\<open>Structure.initialize\<close>: the graph is replaced by an empty one before the atoms and
  bonds are added. The result pairs the exception raised, if any, with the structure as
  it is left.
\<close>

fun add_all :: "('s \<Rightarrow> 'a \<Rightarrow> error + 's) \<Rightarrow> 's \<Rightarrow> 'a list \<Rightarrow> error option \<times> 's" where
  "add_all f s [] = (None, s)"
| "add_all f s (x # xs) =
     (case f s x of Inl e \<Rightarrow> (Some e, s) | Inr s' \<Rightarrow> add_all f s' xs)"

definition initialize :: "atom list \<Rightarrow> bond list \<Rightarrow> error option \<times> structure" where
  "initialize atoms bonds =
     (case add_all addAtom \<lparr>s_atoms = [], s_bonds = []\<rparr> atoms of
        (Some e, g) \<Rightarrow> (Some e, g)
      | (None, g) \<Rightarrow> add_all addBond g bonds)"

text \<open>
  \<^verbatim>\<open>Structure.copy\<close>: \<^verbatim>\<open>self.atoms().index(bond.atoms[i])\<close> raises \<^verbatim>\<open>ValueError\<close> for an
  endpoint that is not a vertex; the copies are handed to the constructor, which calls
  \<open>initialize\<close>.
\<close>

fun copy_bond :: "structure \<Rightarrow> bond \<Rightarrow> error + bond" where
  "copy_bond s b =
     (if fst (b_atoms b) < length (s_atoms s) \<and> snd (b_atoms b) < length (s_atoms s)
      then Inr b else Inl ValueError)"

fun copy_bonds :: "structure \<Rightarrow> bond list \<Rightarrow> error + bond list" where
  "copy_bonds s [] = Inr []"
| "copy_bonds s (b # bs) =
     ebind (copy_bond s b) (\<lambda>c. ebind (copy_bonds s bs) (\<lambda>cs. Inr (c # cs)))"

definition copy :: "structure \<Rightarrow> error + structure" where
  "copy s =
     ebind (copy_bonds s (s_bonds s)) (\<lambda>bonds.
       case initialize (s_atoms s) bonds of
         (Some e, g) \<Rightarrow> Inl e
       | (None, g) \<Rightarrow> Inr g)"

section \<open>Resonance isomers\<close>

text \<open>\<^verbatim>\<open>Structure.getRadicalCount\<close>.\<close>

fun getRadicalCount_loop :: "int \<Rightarrow> atom list \<Rightarrow> error + int" where
  "getRadicalCount_loop radical [] = Inr radical"
| "getRadicalCount_loop radical (a # as) =
     ebind (electronState_order a) (\<lambda>n. getRadicalCount_loop (radical + n) as)"

definition getRadicalCount :: "structure \<Rightarrow> error + int" where
  "getRadicalCount s = getRadicalCount_loop 0 (s_atoms s)"

text \<open>
  \<^verbatim>\<open>Structure.findAllDelocalizationPaths\<close>. A path is the tuple of the objects
  \<^verbatim>\<open>[atom1, atom2, atom3, bond12, bond23]\<close>. The test \<^verbatim>\<open>atom1 is not atom3\<close> comes first
  and short-circuits \<^verbatim>\<open>canDecreaseOrder\<close>.
\<close>

type_synonym path = "nat \<times> nat \<times> nat \<times> nat \<times> nat"

fun paths_inner :: "structure \<Rightarrow> nat \<Rightarrow> nat \<Rightarrow> nat \<Rightarrow> (nat \<times> nat) list \<Rightarrow> error + path list" where
  "paths_inner s atom1 atom2 bond12 [] = Inr []"
| "paths_inner s atom1 atom2 bond12 ((atom3, bond23) # rest) =
     (if atom1 \<noteq> atom3 then
        ebind (canDecreaseOrder (s_bonds s ! bond23)) (\<lambda>c.
          ebind (paths_inner s atom1 atom2 bond12 rest) (\<lambda>ps.
            Inr (if c then (atom1, atom2, atom3, bond12, bond23) # ps else ps)))
      else paths_inner s atom1 atom2 bond12 rest)"

fun paths_outer :: "structure \<Rightarrow> nat \<Rightarrow> (nat \<times> nat) list \<Rightarrow> error + path list" where
  "paths_outer s atom1 [] = Inr []"
| "paths_outer s atom1 ((atom2, bond12) # rest) =
     ebind (canIncreaseOrder (s_bonds s ! bond12)) (\<lambda>c.
       ebind (if c then paths_inner s atom1 atom2 bond12 (getBonds s atom2) else Inr []) (\<lambda>ps.
         ebind (paths_outer s atom1 rest) (\<lambda>qs. Inr (ps @ qs))))"

definition findAllDelocalizationPaths :: "structure \<Rightarrow> nat \<Rightarrow> error + path list" where
  "findAllDelocalizationPaths s atom1 =
     ebind (electronState_order (s_atoms s ! atom1)) (\<lambda>n.
       if n \<le> 0 then Inr [] else paths_outer s atom1 (getBonds s atom1))"

text \<open>
  Modelled from the spec: the mutators of \<^verbatim>\<open>chem.Atom\<close> and \<^verbatim>\<open>chem.Bond\<close>.
  \<^verbatim>\<open>increaseFreeElectron\<close> and \<^verbatim>\<open>decreaseFreeElectron\<close> replace the electron state of a
  resolved atom; which state follows which is decided by the electron-state table of
  \<^verbatim>\<open>chem\<close>, taken here as the parameters \<open>inc\<close> and \<open>dec\<close>. \<^verbatim>\<open>increaseOrder\<close> and
  \<^verbatim>\<open>decreaseOrder\<close> move the order of a resolved bond by one unit and raise a domain
  error when the result leaves the legal orders 1, 1.5, 2, 3.
\<close>

type_synonym es_step = "electronState \<Rightarrow> error + electronState"

definition changeFreeElectron :: "es_step \<Rightarrow> atom \<Rightarrow> error + atom" where
  "changeFreeElectron f a =
     (case a_electronState a of
        [e] \<Rightarrow> ebind (f e) (\<lambda>e'. Inr (a\<lparr>a_electronState := [e']\<rparr>))
      | _ \<Rightarrow> Inl AttributeError)"

definition bondType_of_order :: "rat \<Rightarrow> error + bondType" where
  "bondType_of_order r =
     (if r = 1 then Inr S else if r = 3 / 2 then Inr B
      else if r = 2 then Inr D else if r = 3 then Inr T else Inl DomainError)"

definition increaseOrder :: "bond \<Rightarrow> error + bond" where
  "increaseOrder b =
     ebind (bondType_order b) (\<lambda>r.
       ebind (bondType_of_order (r + 1)) (\<lambda>t. Inr (b\<lparr>b_bondType := [t]\<rparr>)))"

definition decreaseOrder :: "bond \<Rightarrow> error + bond" where
  "decreaseOrder b =
     ebind (bondType_order b) (\<lambda>r.
       ebind (bondType_of_order (r - 1)) (\<lambda>t. Inr (b\<lparr>b_bondType := [t]\<rparr>)))"

text \<open>In-place mutation of one atom or bond object of a structure.\<close>

definition on_atom :: "(atom \<Rightarrow> error + atom) \<Rightarrow> nat \<Rightarrow> structure \<Rightarrow> error + structure" where
  "on_atom f i s =
     ebind (f (s_atoms s ! i)) (\<lambda>a. Inr (s\<lparr>s_atoms := (s_atoms s)[i := a]\<rparr>))"

definition on_bond :: "(bond \<Rightarrow> error + bond) \<Rightarrow> nat \<Rightarrow> structure \<Rightarrow> error + structure" where
  "on_bond f k s =
     ebind (f (s_bonds s ! k)) (\<lambda>b. Inr (s\<lparr>s_bonds := (s_bonds s)[k := b]\<rparr>))"

text \<open>
  The body of the loop over the paths in \<^verbatim>\<open>Structure.getAdjacentResonanceIsomers\<close>:
  shift, copy, restore. The result is the isomer and the structure as it is left.
\<close>

fun shift_path :: "es_step \<Rightarrow> es_step \<Rightarrow> structure \<Rightarrow> path \<Rightarrow> error + structure \<times> structure" where
  "shift_path inc dec s (atom1, atom2, atom3, bond12, bond23) =
     ebind (on_atom (changeFreeElectron dec) atom1 s) (\<lambda>s1.
     ebind (on_atom (changeFreeElectron inc) atom3 s1) (\<lambda>s2.
     ebind (on_bond increaseOrder bond12 s2) (\<lambda>s3.
     ebind (on_bond decreaseOrder bond23 s3) (\<lambda>s4.
     ebind (copy s4) (\<lambda>isomer.
     ebind (on_atom (changeFreeElectron inc) atom1 s4) (\<lambda>s5.
     ebind (on_atom (changeFreeElectron dec) atom3 s5) (\<lambda>s6.
     ebind (on_bond decreaseOrder bond12 s6) (\<lambda>s7.
     ebind (on_bond increaseOrder bond23 s7) (\<lambda>s8.
       Inr (isomer, s8))))))))))"

fun paths_loop :: "es_step \<Rightarrow> es_step \<Rightarrow> structure \<Rightarrow> path list \<Rightarrow> error + structure list \<times> structure" where
  "paths_loop inc dec s [] = Inr ([], s)"
| "paths_loop inc dec s (p # ps) =
     ebind (shift_path inc dec s p) (\<lambda>(isomer, s').
       ebind (paths_loop inc dec s' ps) (\<lambda>(isomers, s'').
         Inr (isomer # isomers, s'')))"

fun atoms_loop :: "es_step \<Rightarrow> es_step \<Rightarrow> structure \<Rightarrow> nat list \<Rightarrow> error + structure list \<times> structure" where
  "atoms_loop inc dec s [] = Inr ([], s)"
| "atoms_loop inc dec s (a # as) =
     ebind (findAllDelocalizationPaths s a) (\<lambda>paths.
       ebind (paths_loop inc dec s paths) (\<lambda>(isomers, s').
         ebind (atoms_loop inc dec s' as) (\<lambda>(isomers', s'').
           Inr (isomers @ isomers', s''))))"

definition getAdjacentResonanceIsomers :: "es_step \<Rightarrow> es_step \<Rightarrow> structure \<Rightarrow> error + structure list \<times> structure" where
  "getAdjacentResonanceIsomers inc dec s =
     ebind (getRadicalCount s) (\<lambda>radical.
       if radical > 0 then atoms_loop inc dec s [0..<length (s_atoms s)]
       else Inr ([], s))"

section \<open>Notions used in the statements\<close>

text \<open>The bond \<open>b\<close> joins the atoms \<open>a\<close> and \<open>a2\<close>, in either direction.\<close>

definition joins :: "bond \<Rightarrow> nat \<Rightarrow> nat \<Rightarrow> bool" where
  "joins b a a2 = (b_atoms b = (a, a2) \<or> b_atoms b = (a2, a))"

text \<open>Every bond of the structure holds exactly one bond type.\<close>

definition resolved_bonds :: "structure \<Rightarrow> bool" where
  "resolved_bonds s = list_all (\<lambda>b. length (b_bondType b) = 1) (s_bonds s)"

text \<open>
  A path whose two atoms and two bonds are different objects, the bonds being bonds of
  the structure.
\<close>

definition path_ok :: "bond list \<Rightarrow> path \<Rightarrow> bool" where
  "path_ok bs p = (case p of (a1, a2, a3, b12, b23) \<Rightarrow>
     a1 \<noteq> a3 \<and> b12 \<noteq> b23 \<and> b12 < length bs \<and> b23 < length bs)"

text \<open>
  What the spec says of the two electron-state mutators: one raises the free-electron
  count by one, the other lowers it by one.
\<close>

definition counts_up :: "es_step \<Rightarrow> bool" where
  "counts_up f = (\<forall>e e'. f e = Inr e' \<longrightarrow> es_order e' = es_order e + 1)"

definition counts_down :: "es_step \<Rightarrow> bool" where
  "counts_down f = (\<forall>e e'. f e = Inr e' \<longrightarrow> es_order e' = es_order e - 1)"

text \<open>
  What a call must leave as it was: for every atom its types, its free-electron count,
  its charge and its label, and every bond.
\<close>

definition atom_frame :: "atom \<Rightarrow> atomType list \<times> (error + int) \<times> int \<times> string" where
  "atom_frame a = (a_atomType a, electronState_order a, a_charge a, a_label a)"

definition frame :: "structure \<Rightarrow> (atomType list \<times> (error + int) \<times> int \<times> string) list \<times> bond list" where
  "frame s = (map atom_frame (s_atoms s), s_bonds s)"

section \<open>Example structures\<close>

definition carbon :: atomType where
  "carbon = \<lparr>at_label = ''C'', at_symbol = ''C''\<rparr>"

definition es0 :: electronState where
  "es0 = \<lparr>es_label = ''0'', es_order = 0\<rparr>"

definition es1 :: electronState where
  "es1 = \<lparr>es_label = ''1'', es_order = 1\<rparr>"

definition mk_atom :: "atomType \<Rightarrow> electronState \<Rightarrow> string \<Rightarrow> atom" where
  "mk_atom t e l = \<lparr>a_atomType = [t], a_electronState = [e], a_charge = 0, a_label = l\<rparr>"

text \<open>The allyl radical \<^verbatim>\<open>C=C-C.\<close>, its last two atoms both labelled \<^verbatim>\<open>*1\<close>.\<close>

definition allyl :: "structure" where
  "allyl = \<lparr>s_atoms = [mk_atom carbon es0 [], mk_atom carbon es0 ''*1'', mk_atom carbon es1 ''*1''],
            s_bonds = [\<lparr>b_atoms = (0, 1), b_bondType = [D]\<rparr>, \<lparr>b_atoms = (1, 2), b_bondType = [S]\<rparr>]\<rparr>"

text \<open>Two carbons joined by a single bond, no radical.\<close>

definition ethane :: "structure" where
  "ethane = \<lparr>s_atoms = [mk_atom carbon es0 [], mk_atom carbon es0 []],
             s_bonds = [\<lparr>b_atoms = (0, 1), b_bondType = [S]\<rparr>]\<rparr>"

text \<open>An electron-state table with the states \<^verbatim>\<open>0\<close> and \<^verbatim>\<open>1\<close> only.\<close>

definition radical_up :: es_step where
  "radical_up e = (if e = es0 then Inr es1 else Inl KeyError)"

definition radical_down :: es_step where
  "radical_down e = (if e = es1 then Inr es0 else Inl KeyError)"

text \<open>The allyl radical after the shift: \<^verbatim>\<open>C.-C=C\<close>.\<close>

definition allyl_shifted :: "structure" where
  "allyl_shifted = \<lparr>s_atoms = [mk_atom carbon es1 [], mk_atom carbon es0 ''*1'', mk_atom carbon es0 ''*1''],
            s_bonds = [\<lparr>b_atoms = (0, 1), b_bondType = [S]\<rparr>, \<lparr>b_atoms = (1, 2), b_bondType = [D]\<rparr>]\<rparr>"

section \<open>Atom types\<close>

text \<open>
  Modelled from the spec: the tests \<^verbatim>\<open>atom.isCarbon()\<close> and \<^verbatim>\<open>atom.isOxygen()\<close> of
  \<^verbatim>\<open>chem.Atom\<close> compare the element of the atom's type; they are type-dependent logic
  and raise on an atom that holds an ambiguity set. The tests \<^verbatim>\<open>isSingle\<close>,
  \<^verbatim>\<open>isDouble\<close>, \<^verbatim>\<open>isTriple\<close> and \<^verbatim>\<open>isBenzene\<close> of \<^verbatim>\<open>chem.Bond\<close> read the class of the
  single bond type in the same way.
\<close>

fun element_symbol :: "atom \<Rightarrow> error + string" where
  "element_symbol a =
     (case a_atomType a of [t] \<Rightarrow> Inr (at_symbol t) | _ \<Rightarrow> Inl AttributeError)"

definition isCarbon :: "atom \<Rightarrow> error + bool" where
  "isCarbon a = ebind (element_symbol a) (\<lambda>sy. Inr (sy = ''C''))"

definition isOxygen :: "atom \<Rightarrow> error + bool" where
  "isOxygen a = ebind (element_symbol a) (\<lambda>sy. Inr (sy = ''O''))"

fun bondType_of :: "bond \<Rightarrow> error + bondType" where
  "bondType_of b = (case b_bondType b of [t] \<Rightarrow> Inr t | _ \<Rightarrow> Inl AttributeError)"

text \<open>The counters of the loop over the bonds of an atom in \<^verbatim>\<open>updateAtomTypes\<close>.\<close>

record counts =
  single :: nat
  double :: nat
  triple :: nat
  benzene :: nat
  carbonyl :: bool

fun count_class :: "bondType \<Rightarrow> counts \<Rightarrow> counts" where
  "count_class S c = c\<lparr>single := single c + 1\<rparr>"
| "count_class D c = c\<lparr>double := double c + 1\<rparr>"
| "count_class T c = c\<lparr>triple := triple c + 1\<rparr>"
| "count_class B c = c\<lparr>benzene := benzene c + 1\<rparr>"

fun count_bond :: "structure \<Rightarrow> nat \<Rightarrow> counts \<Rightarrow> nat \<times> nat \<Rightarrow> error + counts" where
  "count_bond s atom1 c (atom2, bond12) =
     ebind (bondType_of (s_bonds s ! bond12)) (\<lambda>bt.
       ebind (isCarbon (s_atoms s ! atom1)) (\<lambda>ic.
         if ic then
           ebind (isOxygen (s_atoms s ! atom2)) (\<lambda>io.
             Inr (if io \<and> bt = D then (count_class bt c)\<lparr>carbonyl := True\<rparr>
                  else count_class bt c))
         else Inr (count_class bt c)))"

definition count_bonds :: "structure \<Rightarrow> nat \<Rightarrow> error + counts" where
  "count_bonds s atom1 =
     efold (count_bond s atom1)
       \<lparr>single = 0, double = 0, triple = 0, benzene = 0, carbonyl = False\<rparr>
       (getBonds s atom1)"

text \<open>The cascade that turns the element symbol and the counts into a suggestion.\<close>

definition suggest :: "string \<Rightarrow> counts \<Rightarrow> string" where
  "suggest symbol c =
     (if symbol = ''C'' then
        (if triple c = 1 then ''Ct''
         else if single c = 3 \<or> single c = 4 then ''Cs''
         else if double c = 2 then ''Cdd''
         else if carbonyl c then ''CO''
         else if double c = 1 \<and> (single c = 1 \<or> single c = 2) then ''Cds''
         else if double c = 1 then ''Cd''
         else if benzene c = 1 \<or> benzene c = 2 then ''Cb''
         else if benzene c = 3 then ''Cbf''
         else symbol)
      else if symbol = ''O'' then
        (if single c = 1 \<or> single c = 2 then ''Os''
         else if double c = 1 then ''Od''
         else symbol)
      else symbol)"

text \<open>
  \<^verbatim>\<open>atom1.atomType = chem.atomTypes[atomType]\<close>. The table \<^verbatim>\<open>chem.atomTypes\<close> is not part
  of the sources and is the parameter \<open>reg\<close>; a label it does not hold is a \<^verbatim>\<open>KeyError\<close>.
\<close>

type_synonym registry = "string \<Rightarrow> atomType option"

definition setAtomType :: "registry \<Rightarrow> structure \<Rightarrow> nat \<Rightarrow> string \<Rightarrow> error + structure" where
  "setAtomType reg s i l =
     (case reg l of
        None \<Rightarrow> Inl KeyError
      | Some t \<Rightarrow> Inr (s\<lparr>s_atoms := (s_atoms s)[i := (s_atoms s ! i)\<lparr>a_atomType := [t]\<rparr>]\<rparr>))"

text \<open>
  The reconciliation of the suggestion with the type the atom has, branch by branch as
  in the source. In the last branch a warning is logged and nothing else happens.
\<close>

definition reconcile :: "registry \<Rightarrow> structure \<Rightarrow> nat \<Rightarrow> atomType \<Rightarrow> string \<Rightarrow> error + structure" where
  "reconcile reg s i t atomType =
     (if at_label t = atomType then Inr s
      else if atomType = at_symbol t \<or> atomType = ''Cd'' then Inr s
      else if (at_label t = ''Cds'' \<or> at_label t = ''Cdd'') \<and> atomType = ''Cd'' then Inr s
      else if at_label t = ''Cbf'' \<and> atomType = ''Cb'' then Inr s
      else if at_label t = ''Cdd'' \<and> atomType = ''CO'' then Inr s
      else if at_label t = at_symbol t then setAtomType reg s i atomType
      else if at_label t = ''Cd'' \<and>
              (atomType = ''Cds'' \<or> atomType = ''Cdd'' \<or> atomType = ''CO'')
        then setAtomType reg s i atomType
      else Inr s)"

text \<open>The body of the loop over the atoms in \<^verbatim>\<open>Structure.updateAtomTypes\<close>.\<close>

definition updateAtomType :: "registry \<Rightarrow> structure \<Rightarrow> nat \<Rightarrow> error + structure" where
  "updateAtomType reg s i =
     (case a_atomType (s_atoms s ! i) of
        [t] \<Rightarrow>
          if at_label t = ''R'' \<or> at_label t = ''R!H'' then Inr s
          else ebind (count_bonds s i) (\<lambda>c. reconcile reg s i t (suggest (at_symbol t) c))
      | _ \<Rightarrow> Inr s)"

definition updateAtomTypes :: "registry \<Rightarrow> structure \<Rightarrow> error + structure" where
  "updateAtomTypes reg s = efold (updateAtomType reg) s [0..<length (s_atoms s)]"

text \<open>
  The suggestion for the atom \<open>i\<close>, as the loop body computes it for a resolved atom that
  is not generic.
\<close>

definition suggested :: "structure \<Rightarrow> nat \<Rightarrow> error + string" where
  "suggested s i =
     ebind (element_symbol (s_atoms s ! i)) (\<lambda>sy.
       ebind (count_bonds s i) (\<lambda>c. Inr (suggest sy c)))"

text \<open>
  A table of atom types is in order when the types it holds under the labels that the
  cascade can suggest carry that label and the element of the label.
\<close>

definition entry_ok :: "registry \<Rightarrow> string \<Rightarrow> string \<Rightarrow> bool" where
  "entry_ok reg symbol l =
     (case reg l of None \<Rightarrow> True | Some t \<Rightarrow> at_label t = l \<and> at_symbol t = symbol)"

definition registry_ok :: "registry \<Rightarrow> bool" where
  "registry_ok reg =
     (list_all (entry_ok reg ''C'') [''Ct'', ''Cs'', ''Cdd'', ''CO'', ''Cds'', ''Cd'', ''Cb'', ''Cbf''] \<and>
      list_all (entry_ok reg ''O'') [''Os'', ''Od''])"

text \<open>A table with some carbon and oxygen types, and ethene and formaldehyde without hydrogens.\<close>

definition example_atomTypes :: registry where
  "example_atomTypes l =
     (if l \<in> set [''C'', ''Cs'', ''Cd'', ''Cds'', ''Cdd'', ''CO'', ''Ct'', ''Cb'', ''Cbf'']
      then Some \<lparr>at_label = l, at_symbol = ''C''\<rparr>
      else if l \<in> set [''O'', ''Os'', ''Od'']
      then Some \<lparr>at_label = l, at_symbol = ''O''\<rparr>
      else None)"

definition oxygen :: atomType where
  "oxygen = \<lparr>at_label = ''O'', at_symbol = ''O''\<rparr>"

definition ethene :: "structure" where
  "ethene = \<lparr>s_atoms = [mk_atom carbon es0 [], mk_atom carbon es0 []],
             s_bonds = [\<lparr>b_atoms = (0, 1), b_bondType = [D]\<rparr>]\<rparr>"

definition methanal :: "structure" where
  "methanal = \<lparr>s_atoms = [mk_atom carbon es0 [], mk_atom oxygen es0 []],
               s_bonds = [\<lparr>b_atoms = (0, 1), b_bondType = [D]\<rparr>]\<rparr>"

section \<open>Notions used in the statements on atom types\<close>

text \<open>The element symbols of the atoms, atom by atom; an error for an unresolved atom.\<close>

definition elems :: "structure \<Rightarrow> (error + string) list" where
  "elems s = map element_symbol (s_atoms s)"

text \<open>
  The two branches of the reconciliation that change the type, as one condition on the
  type \<open>t\<close> the atom has and the suggestion \<open>sg\<close>.
\<close>

definition adopts :: "atomType \<Rightarrow> string \<Rightarrow> bool" where
  "adopts t sg =
     (at_label t \<noteq> sg \<and> sg \<noteq> at_symbol t \<and> sg \<noteq> ''Cd'' \<and>
      \<not> (at_label t = ''Cbf'' \<and> sg = ''Cb'') \<and> \<not> (at_label t = ''Cdd'' \<and> sg = ''CO'') \<and>
      (at_label t = at_symbol t \<or>
       at_label t = ''Cd'' \<and> (sg = ''Cds'' \<or> sg = ''Cdd'' \<or> sg = ''CO'')))"

text \<open>The generic types that \<^verbatim>\<open>updateAtomTypes\<close> skips.\<close>

definition generic :: "atomType \<Rightarrow> bool" where
  "generic t = (at_label t = ''R'' \<or> at_label t = ''R!H'')"

text \<open>The loop body of \<^verbatim>\<open>updateAtomTypes\<close> has nothing to change at the atom \<open>i\<close>.\<close>

definition settled :: "structure \<Rightarrow> nat \<Rightarrow> bool" where
  "settled s i =
     (case a_atomType (s_atoms s ! i) of
        [t] \<Rightarrow> generic t \<or> (\<exists>c. count_bonds s i = Inr c \<and> \<not> adopts t (suggest (at_symbol t) c))
      | _ \<Rightarrow> True)"

text \<open>Formaldehyde with the types that \<^verbatim>\<open>updateAtomTypes\<close> gives it.\<close>

definition methanal_typed :: "structure" where
  "methanal_typed =
     \<lparr>s_atoms = [mk_atom \<lparr>at_label = ''CO'', at_symbol = ''C''\<rparr> es0 [],
                mk_atom \<lparr>at_label = ''Od'', at_symbol = ''O''\<rparr> es0 []],
      s_bonds = [\<lparr>b_atoms = (0, 1), b_bondType = [D]\<rparr>]\<rparr>"

section \<open>Python string operations used by the adjacency-list codec\<close>

text \<open>
  The strings are Python 2 byte strings. \<^verbatim>\<open>str.split()\<close> splits at runs of the six
  ASCII whitespace characters and gives no empty token.
\<close>

definition is_space :: "char \<Rightarrow> bool" where
  "is_space c = (c \<in> set [CHR '' '', CHR 0x09, CHR 0x0A, CHR 0x0B, CHR 0x0C, CHR 0x0D])"

fun py_split_loop :: "string \<Rightarrow> string \<Rightarrow> string list" where
  "py_split_loop cur [] = (if cur = [] then [] else [cur])"
| "py_split_loop cur (c # cs) =
     (if is_space c then (if cur = [] then py_split_loop [] cs else cur # py_split_loop [] cs)
      else py_split_loop (cur @ [c]) cs)"

definition py_split :: "string \<Rightarrow> string list" where
  "py_split s = py_split_loop [] s"

text \<open>
  \<^verbatim>\<open>str.splitlines()\<close>: a line ends at \<^verbatim>\<open>\n\<close>, \<^verbatim>\<open>\r\<close> or \<^verbatim>\<open>\r\n\<close>; there is no empty last
  line. The flag says that the character before was \<^verbatim>\<open>\r\<close>.
\<close>

fun py_splitlines_loop :: "bool \<Rightarrow> string \<Rightarrow> string \<Rightarrow> string list" where
  "py_splitlines_loop cr cur [] = (if cur = [] then [] else [cur])"
| "py_splitlines_loop cr cur (c # cs) =
     (if c = CHR 0x0A then (if cr then py_splitlines_loop False cur cs
                            else cur # py_splitlines_loop False [] cs)
      else if c = CHR 0x0D then cur # py_splitlines_loop True [] cs
      else py_splitlines_loop False (cur @ [c]) cs)"

definition py_splitlines :: "string \<Rightarrow> string list" where
  "py_splitlines s = py_splitlines_loop False [] s"

text \<open>\<^verbatim>\<open>s.split(sep)\<close> for a separator of one character: at least one piece.\<close>

fun py_split_on_loop :: "char \<Rightarrow> string \<Rightarrow> string \<Rightarrow> string list" where
  "py_split_on_loop sep cur [] = [cur]"
| "py_split_on_loop sep cur (c # cs) =
     (if c = sep then cur # py_split_on_loop sep [] cs else py_split_on_loop sep (cur @ [c]) cs)"

definition py_split_on :: "char \<Rightarrow> string \<Rightarrow> string list" where
  "py_split_on sep s = py_split_on_loop sep [] s"

text \<open>\<^verbatim>\<open>s.strip(c)\<close>, \<^verbatim>\<open>s[1:-1]\<close>, \<^verbatim>\<open>s.partition(c)\<close>, \<^verbatim>\<open>s.upper()\<close> and \<^verbatim>\<open>s[0]\<close>.\<close>

definition py_strip :: "char \<Rightarrow> string \<Rightarrow> string" where
  "py_strip c s = rev (dropWhile (\<lambda>x. x = c) (rev (dropWhile (\<lambda>x. x = c) s)))"

definition py_inner :: "string \<Rightarrow> string" where
  "py_inner s = butlast (tl s)"

definition py_partition :: "char \<Rightarrow> string \<Rightarrow> string \<times> string \<times> string" where
  "py_partition c s =
     (if c \<in> set s
      then (takeWhile (\<lambda>x. x \<noteq> c) s, [c], tl (dropWhile (\<lambda>x. x \<noteq> c) s))
      else (s, [], []))"

definition py_upper_char :: "char \<Rightarrow> char" where
  "py_upper_char c =
     (if 97 \<le> (of_char c :: nat) \<and> (of_char c :: nat) \<le> 122
      then char_of ((of_char c :: nat) - 32) else c)"

definition py_upper :: "string \<Rightarrow> string" where
  "py_upper s = map py_upper_char s"

definition py_first :: "string \<Rightarrow> error + char" where
  "py_first s = (case s of [] \<Rightarrow> Inl IndexError | c # _ \<Rightarrow> Inr c)"

definition py_item :: "'a list \<Rightarrow> nat \<Rightarrow> error + 'a" where
  "py_item xs i = (if i < length xs then Inr (xs ! i) else Inl IndexError)"

text \<open>
  \<^verbatim>\<open>int(s)\<close> for a token without whitespace: an optional sign and decimal digits, a
  \<^verbatim>\<open>ValueError\<close> otherwise. \<^verbatim>\<open>str(n)\<close> for a natural number.
\<close>

definition is_digit :: "char \<Rightarrow> bool" where
  "is_digit c = (48 \<le> (of_char c :: nat) \<and> (of_char c :: nat) \<le> 57)"

definition digits_value :: "string \<Rightarrow> int" where
  "digits_value ds = foldl (\<lambda>n c. 10 * n + (int (of_char c) - 48)) 0 ds"

definition unsigned :: "string \<Rightarrow> error + int" where
  "unsigned ds =
     (if ds \<noteq> [] \<and> list_all is_digit ds then Inr (digits_value ds) else Inl ValueError)"

definition py_int :: "string \<Rightarrow> error + int" where
  "py_int s =
     (case s of
        [] \<Rightarrow> Inl ValueError
      | c # cs \<Rightarrow>
          if c = CHR ''+'' then unsigned cs
          else if c = CHR ''-'' then ebind (unsigned cs) (\<lambda>n. Inr (- n))
          else unsigned s)"

fun py_str :: "nat \<Rightarrow> string" where
  "py_str n =
     (if n < 10 then [char_of (48 + n)]
      else py_str (n div 10) @ [char_of (48 + n mod 10)])"

declare py_str.simps [simp del]

section \<open>The adjacency-list codec\<close>

text \<open>A Python dictionary with its keys in a fixed order: assignment and lookup.\<close>

fun dict_set :: "'k \<Rightarrow> 'v \<Rightarrow> ('k \<times> 'v) list \<Rightarrow> ('k \<times> 'v) list" where
  "dict_set k v [] = [(k, v)]"
| "dict_set k v (p # ps) = (if fst p = k then (k, v) # ps else p # dict_set k v ps)"

definition dict_get :: "('k \<times> 'v) list \<Rightarrow> 'k \<Rightarrow> error + 'v" where
  "dict_get d k = (case map_of d k of None \<Rightarrow> Inl KeyError | Some v \<Rightarrow> Inr v)"

text \<open>
  Modelled from the spec: the tables \<^verbatim>\<open>chem.atomTypes\<close>, \<^verbatim>\<open>chem.electronStates\<close> and
  \<^verbatim>\<open>chem.bondTypes\<close> and the constructors \<^verbatim>\<open>chem.Atom(atomType, electronState, charge,
  label)\<close> and \<^verbatim>\<open>chem.Bond(atoms, bondType)\<close>, none of them part of the sources. The
  tables are parameters. A constructor resolves each label it is given through the
  table; a label the table does not hold is a \<^verbatim>\<open>KeyError\<close>.
\<close>

record chem =
  atomTypes :: registry
  electronStates :: "string \<Rightarrow> electronState option"
  bondTypes :: "string \<Rightarrow> bondType option"

fun lookup_all :: "(string \<Rightarrow> 'a option) \<Rightarrow> string list \<Rightarrow> error + 'a list" where
  "lookup_all table [] = Inr []"
| "lookup_all table (l # ls) =
     (case table l of
        None \<Rightarrow> Inl KeyError
      | Some x \<Rightarrow> ebind (lookup_all table ls) (\<lambda>xs. Inr (x # xs)))"

definition chem_Atom :: "chem \<Rightarrow> string list \<Rightarrow> string list \<Rightarrow> int \<Rightarrow> string \<Rightarrow> error + atom" where
  "chem_Atom ch elements elecState charge center =
     ebind (lookup_all (atomTypes ch) elements) (\<lambda>ts.
       ebind (lookup_all (electronStates ch) elecState) (\<lambda>es.
         Inr \<lparr>a_atomType = ts, a_electronState = es, a_charge = charge, a_label = center\<rparr>))"

definition chem_Bond :: "chem \<Rightarrow> nat \<times> nat \<Rightarrow> string list \<Rightarrow> error + bond" where
  "chem_Bond ch ends btype =
     ebind (lookup_all (bondTypes ch) btype) (\<lambda>ts. Inr \<lparr>b_atoms = ends, b_bondType = ts\<rparr>)"

text \<open>
  The local variables of \<^verbatim>\<open>Structure.fromAdjacencyList\<close>. An atom object is identified by
  its position in \<open>adj_atoms\<close>; \<open>atomdict\<close> maps an atom id of the text to it.
\<close>

record adj =
  adj_atoms :: "atom list"
  adj_bonds :: "bond list"
  atomdict :: "(int \<times> nat) list"
  bonddict :: "(int \<times> (int \<times> string list) list) list"

text \<open>A bare label, or a set of labels in braces separated by commas.\<close>

definition parse_set :: "string \<Rightarrow> error + string list" where
  "parse_set tok =
     ebind (py_first tok) (\<lambda>c.
       Inr (if c = CHR ''{'' then py_split_on (CHR '','') (py_inner tok) else [tok]))"

text \<open>The body of the loop over the bond descriptors of a line.\<close>

definition parse_datum :: "chem \<Rightarrow> int \<Rightarrow> adj \<Rightarrow> string \<Rightarrow> error + adj" where
  "parse_datum ch aid st datum =
     (case py_partition (CHR '','') (py_inner (py_strip (CHR '','') datum)) of
        (aid2, comma, btype) \<Rightarrow>
          ebind (py_int aid2) (\<lambda>aid2.
          ebind (parse_set btype) (\<lambda>btype.
          ebind (case map_of (atomdict st) aid2 of
                   Some atom2 \<Rightarrow>
                     ebind (dict_get (atomdict st) aid) (\<lambda>atom1.
                     ebind (chem_Bond ch (atom1, atom2) btype) (\<lambda>bond.
                       Inr (st\<lparr>adj_bonds := adj_bonds st @ [bond]\<rparr>)))
                 | None \<Rightarrow> Inr st) (\<lambda>st'.
          ebind (dict_get (bonddict st') aid) (\<lambda>m.
            Inr (st'\<lparr>bonddict := dict_set aid (dict_set aid2 btype m) (bonddict st')\<rparr>))))))"

text \<open>The body of the loop over the lines after the first.\<close>

definition parse_line :: "chem \<Rightarrow> adj \<Rightarrow> string \<Rightarrow> error + adj" where
  "parse_line ch st line =
     (let data = py_split line in
      if length data = 0 then Inr st
      else
        ebind (py_item data 0) (\<lambda>d0.
        ebind (py_int (py_strip (CHR ''.'') d0)) (\<lambda>aid.
        ebind (py_item data 1) (\<lambda>d1.
        ebind (py_first d1) (\<lambda>c1.
          let center = (if c1 = CHR ''*'' then d1 else []);
              index = (if c1 = CHR ''*'' then 2 else 1)
          in
          ebind (py_item data index) (\<lambda>tok.
          ebind (parse_set tok) (\<lambda>elements.
          ebind (py_item data (index + 1)) (\<lambda>tok2.
          ebind (parse_set (py_upper tok2)) (\<lambda>elecState.
          ebind (chem_Atom ch elements elecState 0 center) (\<lambda>atom.
            efold (parse_datum ch aid)
              (st\<lparr>adj_atoms := adj_atoms st @ [atom],
                  atomdict := dict_set aid (length (adj_atoms st)) (atomdict st),
                  bonddict := dict_set aid [] (bonddict st)\<rparr>)
              (drop (index + 2) data)))))))))))"

text \<open>
  The \<^verbatim>\<open>try\<close> statement with its handler. Every exception of the body is answered by
  \<^verbatim>\<open>raise InvalidAdjacencyListException(label)\<close>; when \<^verbatim>\<open>lines[0]\<close> has raised, the
  local variable \<^verbatim>\<open>label\<close> is not bound and the handler itself raises
  \<^verbatim>\<open>UnboundLocalError\<close>.
\<close>

definition parse :: "chem \<Rightarrow> string \<Rightarrow> error + string \<times> adj" where
  "parse ch adjlist =
     (let lines = py_splitlines adjlist in
      case py_item lines 0 of
        Inl e \<Rightarrow> Inl UnboundLocalError
      | Inr label \<Rightarrow>
          (case efold (parse_line ch)
                  \<lparr>adj_atoms = [], adj_bonds = [], atomdict = [], bonddict = []\<rparr> (drop 1 lines) of
             Inl e \<Rightarrow> Inl (InvalidAdjacencyListException label)
           | Inr st \<Rightarrow> Inr (label, st)))"

text \<open>
  The consistency check over \<open>bonddict\<close>. Each of its three failures raises the same
  exception, so the order in which the dictionaries are walked does not show.
\<close>

definition mirrored :: "(int \<times> (int \<times> string list) list) list \<Rightarrow> int \<Rightarrow> int \<times> string list \<Rightarrow> bool" where
  "mirrored bd atom1 e =
     (case map_of bd (fst e) of
        None \<Rightarrow> False
      | Some m \<Rightarrow> (case map_of m atom1 of None \<Rightarrow> False | Some t \<Rightarrow> snd e = t))"

definition consistent :: "(int \<times> (int \<times> string list) list) list \<Rightarrow> bool" where
  "consistent bd = list_all (\<lambda>(atom1, m). list_all (mirrored bd atom1) m) bd"

text \<open>
  \<^verbatim>\<open>Structure.fromAdjacencyList\<close>: the exception raised, if any, and the structure
  \<^verbatim>\<open>self\<close> as the call leaves it.
\<close>

definition fromAdjacencyList :: "chem \<Rightarrow> structure \<Rightarrow> string \<Rightarrow> error option \<times> structure" where
  "fromAdjacencyList ch self adjlist =
     (case parse ch adjlist of
        Inl e \<Rightarrow> (Some e, self)
      | Inr (label, st) \<Rightarrow>
          if consistent (bonddict st) then initialize (adj_atoms st) (adj_bonds st)
          else (Some (InvalidAdjacencyListException label), self))"

text \<open>
  \<^verbatim>\<open>Structure.toAdjacencyList\<close>. A set of labels is written in braces; \<^verbatim>\<open>x[0]\<close> raises on
  an empty one. After a set of electron states the source writes no blank.
\<close>

definition braces :: "string list \<Rightarrow> error + string" where
  "braces ls =
     (case ls of
        [] \<Rightarrow> Inl IndexError
      | l # rest \<Rightarrow> Inr (''{'' @ l @ concat (map (\<lambda>x. '','' @ x) rest) @ ''}''))"

definition write_atomType :: "atom \<Rightarrow> error + string" where
  "write_atomType a =
     (case a_atomType a of
        [t] \<Rightarrow> Inr (at_label t @ '' '')
      | ts \<Rightarrow> ebind (braces (map at_label ts)) (\<lambda>x. Inr (x @ '' '')))"

definition write_electronState :: "atom \<Rightarrow> error + string" where
  "write_electronState a =
     (case a_electronState a of
        [e] \<Rightarrow> Inr (es_label e @ '' '')
      | es \<Rightarrow> braces (map es_label es))"

definition write_bondType :: "bond \<Rightarrow> error + string" where
  "write_bondType b =
     (case b_bondType b of
        [t] \<Rightarrow> Inr (bt_label t)
      | ts \<Rightarrow> braces (map bt_label ts))"

fun write_bonds :: "structure \<Rightarrow> (nat \<times> nat) list \<Rightarrow> error + string" where
  "write_bonds s [] = Inr []"
| "write_bonds s ((atom2, k) # rest) =
     (if atom2 < length (s_atoms s) then
        ebind (write_bondType (s_bonds s ! k)) (\<lambda>t.
          ebind (write_bonds s rest) (\<lambda>r.
            Inr (''{'' @ py_str (atom2 + 1) @ '','' @ t @ ''} '' @ r)))
      else Inl ValueError)"

definition write_atom :: "structure \<Rightarrow> nat \<Rightarrow> error + string" where
  "write_atom s i =
     (let atom = s_atoms s ! i in
      ebind (write_atomType atom) (\<lambda>t.
      ebind (write_electronState atom) (\<lambda>e.
      ebind (write_bonds s (getBonds s i)) (\<lambda>b.
        Inr (py_str (i + 1) @ '' '' @
             (if a_label atom \<noteq> [] then a_label atom @ '' '' else []) @
             t @ e @ b @ [CHR 0x0A])))))"

fun write_atoms :: "structure \<Rightarrow> nat list \<Rightarrow> error + string" where
  "write_atoms s [] = Inr []"
| "write_atoms s (i # is) =
     ebind (write_atom s i) (\<lambda>x. ebind (write_atoms s is) (\<lambda>r. Inr (x @ r)))"

definition toAdjacencyList :: "structure \<Rightarrow> string \<Rightarrow> error + string" where
  "toAdjacencyList s label =
     ebind (write_atoms s [0..<length (s_atoms s)]) (\<lambda>body.
       Inr ((if label \<noteq> [] then label @ [CHR 0x0A] else []) @ body))"

text \<open>Example tables, and adjacency lists for the statements on the codec.\<close>

definition example_electronStates :: "string \<Rightarrow> electronState option" where
  "example_electronStates l =
     (if l = ''0'' then Some es0 else if l = ''1'' then Some es1 else None)"

definition example_bondTypes :: "string \<Rightarrow> bondType option" where
  "example_bondTypes l =
     (if l = ''S'' then Some S else if l = ''B'' then Some B
      else if l = ''D'' then Some D else if l = ''T'' then Some T else None)"

definition example_chem :: chem where
  "example_chem = \<lparr>atomTypes = example_atomTypes, electronStates = example_electronStates,
                   bondTypes = example_bondTypes\<rparr>"

definition newline :: string where
  "newline = [CHR 0x0A]"

definition ethane_text :: string where
  "ethane_text = ''C1'' @ newline @ ''1 C 0 {2,S}'' @ newline @ ''2 C 0 {1,S}'' @ newline"

definition unmirrored_text :: string where
  "unmirrored_text = ''X'' @ newline @ ''1 C 0 {2,S}'' @ newline @ ''2 C 0'' @ newline"


definition ambiguous_text :: string where
  "ambiguous_text = ''X'' @ newline @ ''1 C {0,1} {2,S}'' @ newline @ ''2 C 0 {1,S}'' @ newline"

section \<open>Notions used in the statements on the codec\<close>


text \<open>
  Every atom reference held by the local variables of the parser is an atom of the local
  atom list.
\<close>

definition in_range :: "adj \<Rightarrow> bool" where
  "in_range st =
     (list_all (\<lambda>b. fst (b_atoms b) < length (adj_atoms st) \<and> snd (b_atoms b) < length (adj_atoms st))
        (adj_bonds st) \<and>
      list_all (\<lambda>p. snd p < length (adj_atoms st)) (atomdict st))"











text \<open>
  A structure without atoms, a structure read from a text with a set of electron states,
  and the text written for it.
\<close>

definition empty_structure :: "structure" where
  "empty_structure = \<lparr>s_atoms = [], s_bonds = []\<rparr>"

definition ambiguous_structure :: "structure" where
  "ambiguous_structure =
     \<lparr>s_atoms = [\<lparr>a_atomType = [carbon], a_electronState = [es0, es1], a_charge = 0, a_label = []\<rparr>,
                mk_atom carbon es0 []],
      s_bonds = [\<lparr>b_atoms = (1, 0), b_bondType = [S]\<rparr>]\<rparr>"

definition ambiguous_written :: string where
  "ambiguous_written =
     ''X'' @ newline @ ''1 C {0,1}{2,S} '' @ newline @ ''2 C 0 {1,S} '' @ newline"

section \<open>Basic facts\<close>


lemma ebind_Inr_iff: "ebind m f = Inr y \<longleftrightarrow> (\<exists>x. m = Inr x \<and> f x = Inr y)"
  by (cases m) (auto simp: ebind_def)

lemma ebind_Inr [simp]: "ebind (Inr x) f = f x"
  by (simp add: ebind_def)

lemma ebind_Inl [simp]: "ebind (Inl e) f = Inl e"
  by (simp add: ebind_def)

lemma getLabeledAtom_loop_None:
  "(\<forall>a\<in>set as. a_label a \<noteq> l) \<Longrightarrow> getLabeledAtom_loop as n l = None"
  by (induction as arbitrary: n) auto

lemma getLabeledAtom_loop_Some:
  "i < length as \<Longrightarrow> a_label (as ! i) = l \<Longrightarrow> (\<forall>j<i. a_label (as ! j) \<noteq> l)
   \<Longrightarrow> getLabeledAtom_loop as n l = Some (n + i)"
proof (induction as arbitrary: n i)
  case Nil
  then show ?case by simp
next
  case (Cons a as)
  show ?case
  proof (cases i)
    case 0
    with Cons.prems show ?thesis by simp
  next
    case (Suc k)
    from Cons.prems Suc have hd: "a_label a \<noteq> l" by auto
    from Cons.prems Suc have "k < length as" "a_label (as ! k) = l" by auto
    moreover from Cons.prems Suc have "\<forall>j<k. a_label (as ! j) \<noteq> l" by auto
    ultimately have "getLabeledAtom_loop as (Suc n) l = Some (Suc n + k)"
      by (rule Cons.IH)
    with hd Suc show ?thesis by simp
  qed
qed

section \<open>Label lookup\<close>

text \<open>
  Claim C10. \<open>getLabeledAtom\<close> returns \<open>None\<close> when no atom of the structure carries
  the label, and otherwise the first atom in iteration order whose label equals it: an
  atom with the label before which no atom has the label is the one returned, also when
  later atoms share the label.
\<close>

theorem getLabeledAtom_first_match:
  "((\<forall>a\<in>set (s_atoms s). a_label a \<noteq> l) \<longrightarrow> getLabeledAtom s l = None) \<and>
   (\<forall>i. i < length (s_atoms s) \<and> a_label (s_atoms s ! i) = l \<and>
        (\<forall>j<i. a_label (s_atoms s ! j) \<noteq> l) \<longrightarrow> getLabeledAtom s l = Some i)"
  using getLabeledAtom_loop_None [of "s_atoms s" l 0]
    getLabeledAtom_loop_Some [of _ "s_atoms s" l 0]
  by (auto simp: getLabeledAtom_def)

theorem getLabeledAtom_first_match_witness:
  "list_all (\<lambda>a. a_label a \<noteq> ''*2'') (s_atoms allyl) \<and> getLabeledAtom allyl ''*2'' = None \<and>
   a_label (s_atoms allyl ! 0) \<noteq> ''*1'' \<and> a_label (s_atoms allyl ! 1) = ''*1'' \<and>
   a_label (s_atoms allyl ! 2) = ''*1'' \<and> getLabeledAtom allyl ''*1'' = Some 1"
  using getLabeledAtom_first_match [of allyl "''*2''"] getLabeledAtom_first_match [of allyl "''*1''"]
  by (simp add: allyl_def mk_atom_def)

section \<open>Radical-free structures\<close>

text \<open>
  Claim C9. For a structure whose radical count, the sum of the electron-state orders of
  its atoms, is zero, \<open>getAdjacentResonanceIsomers\<close> returns the empty list (and leaves
  the structure as it is).
\<close>

theorem radical_free_no_isomers:
  "getRadicalCount s = Inr 0 \<Longrightarrow> getAdjacentResonanceIsomers inc dec s = Inr ([], s)"
  by (simp add: getAdjacentResonanceIsomers_def)

theorem radical_free_no_isomers_witness:
  "getRadicalCount ethane = Inr 0 \<and>
   getAdjacentResonanceIsomers radical_up radical_down ethane = Inr ([], ethane)"
proof -
  have h: "getRadicalCount ethane = Inr 0"
    by (simp add: getRadicalCount_def ethane_def mk_atom_def es0_def)
  from h radical_free_no_isomers [OF h] show ?thesis by simp
qed

section \<open>Delocalization paths\<close>

lemma set_enumerate0: "set (enumerate 0 xs) = (\<lambda>j. (j, xs ! j)) ` {..<length xs}"
proof (rule set_eqI)
  fix p :: "nat \<times> 'a"
  show "p \<in> set (enumerate 0 xs) \<longleftrightarrow> p \<in> (\<lambda>j. (j, xs ! j)) ` {..<length xs}"
    by (cases p) (auto simp: in_set_enumerate_eq)
qed

lemma in_getBonds:
  "(a2, k) \<in> set (getBonds s a) \<longleftrightarrow> k < length (s_bonds s) \<and> joins (s_bonds s ! k) a a2"
proof -
  have "(a2, k) \<in> set (getBonds s a) \<longleftrightarrow>
        (\<exists>j < length (s_bonds s). (a2, k) \<in> set (incident a (j, s_bonds s ! j)))"
    by (simp add: getBonds_def set_enumerate0 Bex_def)
  also have "\<dots> \<longleftrightarrow> k < length (s_bonds s) \<and> joins (s_bonds s ! k) a a2"
    by (auto simp: joins_def prod_eq_iff split: if_splits)
  finally show ?thesis .
qed

lemma paths_inner_set:
  "paths_inner s a1 a2 b12 xs = Inr ps \<Longrightarrow>
   set ps = {(a1, a2, a3, b12, b23) | a3 b23.
               (a3, b23) \<in> set xs \<and> a3 \<noteq> a1 \<and> canDecreaseOrder (s_bonds s ! b23) = Inr True}"
proof (induction xs arbitrary: ps)
  case Nil
  then show ?case by simp
next
  case (Cons x xs)
  obtain a3 b23 where x: "x = (a3, b23)" by (cases x)
  show ?case
  proof (cases "a1 = a3")
    case True
    with Cons.prems x have "paths_inner s a1 a2 b12 xs = Inr ps" by simp
    from Cons.IH [OF this] True x show ?thesis by auto
  next
    case False
    with Cons.prems x obtain c qs where
      c: "canDecreaseOrder (s_bonds s ! b23) = Inr c" and
      qs: "paths_inner s a1 a2 b12 xs = Inr qs" and
      ps: "ps = (if c then (a1, a2, a3, b12, b23) # qs else qs)"
      by (auto simp: ebind_Inr_iff)
    from Cons.IH [OF qs] c ps False x show ?thesis by (cases c) auto
  qed
qed

lemma paths_outer_set:
  "paths_outer s a1 xs = Inr ps \<Longrightarrow>
   set ps = {(a1, a2, a3, b12, b23) | a2 a3 b12 b23.
               (a2, b12) \<in> set xs \<and> canIncreaseOrder (s_bonds s ! b12) = Inr True \<and>
               (a3, b23) \<in> set (getBonds s a2) \<and> a3 \<noteq> a1 \<and>
               canDecreaseOrder (s_bonds s ! b23) = Inr True}"
proof (induction xs arbitrary: ps)
  case Nil
  then show ?case by simp
next
  case (Cons x xs)
  obtain a2 b12 where x: "x = (a2, b12)" by (cases x)
  from Cons.prems x obtain c qs rs where
    c: "canIncreaseOrder (s_bonds s ! b12) = Inr c" and
    qs: "(if c then paths_inner s a1 a2 b12 (getBonds s a2) else Inr []) = Inr qs" and
    rs: "paths_outer s a1 xs = Inr rs" and
    ps: "ps = qs @ rs"
    by (auto simp: ebind_Inr_iff)
  have q: "set qs = {(a1, a2, a3, b12, b23) | a3 b23. c \<and>
               (a3, b23) \<in> set (getBonds s a2) \<and> a3 \<noteq> a1 \<and>
               canDecreaseOrder (s_bonds s ! b23) = Inr True}"
  proof (cases c)
    case True
    with qs have "paths_inner s a1 a2 b12 (getBonds s a2) = Inr qs" by simp
    from paths_inner_set [OF this] True show ?thesis by simp
  next
    case False
    with qs show ?thesis by simp
  qed
  from Cons.IH [OF rs] q c ps x show ?case by auto
qed

lemma resolved_can:
  assumes "resolved_bonds s" "k < length (s_bonds s)"
  shows "\<exists>c. canDecreaseOrder (s_bonds s ! k) = Inr c" "\<exists>c. canIncreaseOrder (s_bonds s ! k) = Inr c"
proof -
  from assms have "length (b_bondType (s_bonds s ! k)) = 1"
    by (simp add: resolved_bonds_def list_all_length)
  then obtain t where "b_bondType (s_bonds s ! k) = [t]"
    by (cases "b_bondType (s_bonds s ! k)") auto
  then show "\<exists>c. canDecreaseOrder (s_bonds s ! k) = Inr c" "\<exists>c. canIncreaseOrder (s_bonds s ! k) = Inr c"
    by (simp_all add: canDecreaseOrder_def canIncreaseOrder_def)
qed

lemma paths_inner_total:
  "resolved_bonds s \<Longrightarrow> \<forall>(a, k) \<in> set xs. k < length (s_bonds s) \<Longrightarrow>
   \<exists>ps. paths_inner s a1 a2 b12 xs = Inr ps"
proof (induction xs)
  case Nil
  then show ?case by simp
next
  case (Cons x xs)
  obtain a3 b23 where x: "x = (a3, b23)" by (cases x)
  from Cons obtain ps where ps: "paths_inner s a1 a2 b12 xs = Inr ps" by auto
  from Cons.prems x obtain c where "canDecreaseOrder (s_bonds s ! b23) = Inr c"
    using resolved_can(1) [of s b23] by auto
  with ps x show ?case by auto
qed

lemma paths_outer_total:
  "resolved_bonds s \<Longrightarrow> \<forall>(a, k) \<in> set xs. k < length (s_bonds s) \<Longrightarrow>
   \<exists>ps. paths_outer s a1 xs = Inr ps"
proof (induction xs)
  case Nil
  then show ?case by simp
next
  case (Cons x xs)
  obtain a2 b12 where x: "x = (a2, b12)" by (cases x)
  from Cons obtain rs where rs: "paths_outer s a1 xs = Inr rs" by auto
  from Cons.prems x obtain c where c: "canIncreaseOrder (s_bonds s ! b12) = Inr c"
    using resolved_can(2) [of s b12] by auto
  have "\<forall>(a, k) \<in> set (getBonds s a2). k < length (s_bonds s)"
    by (auto simp: in_getBonds)
  from paths_inner_total [OF Cons.prems(1) this]
  obtain qs where "paths_inner s a1 a2 b12 (getBonds s a2) = Inr qs" by blast
  with rs c x show ?case by simp
qed

text \<open>
  Claim C3. For an atom \<open>atom1\<close> with radical order \<open>n\<close>: if \<open>n \<le> 0\<close>,
  \<open>findAllDelocalizationPaths\<close> returns the empty list. If \<open>0 < n\<close>, it returns a list
  whenever all bonds are resolved, and the list it returns holds exactly the tuples
  \<open>(atom1, atom2, atom3, bond12, bond23)\<close> where \<open>bond12\<close> joins \<open>atom1\<close> and \<open>atom2\<close> and
  can be increased, \<open>bond23\<close> joins \<open>atom2\<close> and \<open>atom3\<close> and can be decreased, and \<open>atom3\<close>
  is not \<open>atom1\<close>.
\<close>

theorem findAllDelocalizationPaths_exact:
  assumes "electronState_order (s_atoms s ! atom1) = Inr n"
  shows "(n \<le> 0 \<longrightarrow> findAllDelocalizationPaths s atom1 = Inr []) \<and>
         (0 < n \<and> resolved_bonds s \<longrightarrow> (\<exists>ps. findAllDelocalizationPaths s atom1 = Inr ps)) \<and>
         (0 < n \<longrightarrow> (\<forall>ps. findAllDelocalizationPaths s atom1 = Inr ps \<longrightarrow>
            set ps = {(atom1, atom2, atom3, bond12, bond23) | atom2 atom3 bond12 bond23.
               bond12 < length (s_bonds s) \<and> joins (s_bonds s ! bond12) atom1 atom2 \<and>
               canIncreaseOrder (s_bonds s ! bond12) = Inr True \<and>
               bond23 < length (s_bonds s) \<and> joins (s_bonds s ! bond23) atom2 atom3 \<and>
               atom3 \<noteq> atom1 \<and>
               canDecreaseOrder (s_bonds s ! bond23) = Inr True}))"
proof (intro conjI impI allI)
  assume "n \<le> 0"
  with assms show "findAllDelocalizationPaths s atom1 = Inr []"
    by (simp add: findAllDelocalizationPaths_def)
next
  assume "0 < n \<and> resolved_bonds s"
  moreover have "\<forall>(a, k) \<in> set (getBonds s atom1). k < length (s_bonds s)"
    by (auto simp: in_getBonds)
  ultimately obtain ps where "paths_outer s atom1 (getBonds s atom1) = Inr ps"
    using paths_outer_total [of s "getBonds s atom1" atom1] by blast
  with assms \<open>0 < n \<and> resolved_bonds s\<close>
  show "\<exists>ps. findAllDelocalizationPaths s atom1 = Inr ps"
    by (simp add: findAllDelocalizationPaths_def)
next
  fix ps
  assume "0 < n" and "findAllDelocalizationPaths s atom1 = Inr ps"
  with assms have "paths_outer s atom1 (getBonds s atom1) = Inr ps"
    by (simp add: findAllDelocalizationPaths_def)
  from paths_outer_set [OF this]
  show "set ps = {(atom1, atom2, atom3, bond12, bond23) | atom2 atom3 bond12 bond23.
               bond12 < length (s_bonds s) \<and> joins (s_bonds s ! bond12) atom1 atom2 \<and>
               canIncreaseOrder (s_bonds s ! bond12) = Inr True \<and>
               bond23 < length (s_bonds s) \<and> joins (s_bonds s ! bond23) atom2 atom3 \<and>
               atom3 \<noteq> atom1 \<and>
               canDecreaseOrder (s_bonds s ! bond23) = Inr True}"
    by (auto simp: in_getBonds)
qed

theorem findAllDelocalizationPaths_exact_witness:
  "electronState_order (s_atoms allyl ! 2) = Inr 1 \<and> resolved_bonds allyl \<and>
   (\<exists>ps. findAllDelocalizationPaths allyl 2 = Inr ps \<and>
      set ps = {(2, atom2, atom3, bond12, bond23) | atom2 atom3 bond12 bond23.
               bond12 < length (s_bonds allyl) \<and> joins (s_bonds allyl ! bond12) 2 atom2 \<and>
               canIncreaseOrder (s_bonds allyl ! bond12) = Inr True \<and>
               bond23 < length (s_bonds allyl) \<and> joins (s_bonds allyl ! bond23) atom2 atom3 \<and>
               atom3 \<noteq> 2 \<and>
               canDecreaseOrder (s_bonds allyl ! bond23) = Inr True})"
proof -
  have h: "electronState_order (s_atoms allyl ! 2) = Inr 1"
    by (simp add: allyl_def mk_atom_def es1_def)
  have r: "resolved_bonds allyl"
    by (simp add: allyl_def resolved_bonds_def)
  from findAllDelocalizationPaths_exact [OF h] h r show ?thesis by auto
qed

section \<open>The input of the resonance enumeration is restored\<close>

lemma bt_order_inj: "bt_order t = bt_order u \<Longrightarrow> t = u"
  by (cases t; cases u) simp_all

lemma bondType_of_order_bt [simp]: "bondType_of_order (bt_order t) = Inr t"
  by (cases t) (simp_all add: bondType_of_order_def)

lemma bondType_of_order_Inr: "bondType_of_order r = Inr t \<Longrightarrow> bt_order t = r"
  by (auto simp: bondType_of_order_def split: if_splits)

lemma increase_decrease: "increaseOrder b = Inr b' \<Longrightarrow> decreaseOrder b' = Inr b"
  by (auto simp: increaseOrder_def decreaseOrder_def ebind_Inr_iff
      dest!: bondType_of_order_Inr split: list.splits)

lemma decrease_increase: "decreaseOrder b = Inr b' \<Longrightarrow> increaseOrder b' = Inr b"
  by (auto simp: increaseOrder_def decreaseOrder_def ebind_Inr_iff
      dest!: bondType_of_order_Inr split: list.splits)

lemma change_up:
  "counts_up f \<Longrightarrow> changeFreeElectron f a = Inr a' \<Longrightarrow>
   \<exists>n. electronState_order a = Inr n \<and>
     atom_frame a' = (a_atomType a, Inr (n + 1), a_charge a, a_label a)"
  by (auto simp: changeFreeElectron_def counts_up_def atom_frame_def ebind_Inr_iff
      split: list.splits)

lemma change_down:
  "counts_down f \<Longrightarrow> changeFreeElectron f a = Inr a' \<Longrightarrow>
   \<exists>n. electronState_order a = Inr n \<and>
     atom_frame a' = (a_atomType a, Inr (n - 1), a_charge a, a_label a)"
  by (auto simp: changeFreeElectron_def counts_down_def atom_frame_def ebind_Inr_iff
      split: list.splits)

lemma down_up:
  "counts_down d \<Longrightarrow> counts_up u \<Longrightarrow> changeFreeElectron d a = Inr x \<Longrightarrow>
   changeFreeElectron u x = Inr y \<Longrightarrow> atom_frame y = atom_frame a"
  by (auto simp: atom_frame_def dest!: change_up change_down)

lemma up_down:
  "counts_down d \<Longrightarrow> counts_up u \<Longrightarrow> changeFreeElectron u a = Inr x \<Longrightarrow>
   changeFreeElectron d x = Inr y \<Longrightarrow> atom_frame y = atom_frame a"
  by (auto simp: atom_frame_def dest!: change_up change_down)

lemma map_update_same:
  "i < length xs \<longrightarrow> P y = P (xs ! i) \<Longrightarrow> map P (xs[i := y]) = map P xs"
  by (cases "i < length xs") (simp_all add: map_update list_update_same_conv list_update_beyond)

lemma on_atom_Inr:
  "on_atom f i s = Inr s' \<longleftrightarrow>
   (\<exists>x. f (s_atoms s ! i) = Inr x \<and> s' = s\<lparr>s_atoms := (s_atoms s)[i := x]\<rparr>)"
  by (auto simp: on_atom_def ebind_Inr_iff)

lemma on_bond_Inr:
  "on_bond f k s = Inr s' \<longleftrightarrow>
   (\<exists>x. f (s_bonds s ! k) = Inr x \<and> s' = s\<lparr>s_bonds := (s_bonds s)[k := x]\<rparr>)"
  by (auto simp: on_bond_def ebind_Inr_iff)

lemma atoms_restored:
  assumes d: "counts_down dec" and u: "counts_up inc" and ne: "a1 \<noteq> a3"
    and x1: "changeFreeElectron dec (as ! a1) = Inr x1"
    and x3: "changeFreeElectron inc (as[a1 := x1] ! a3) = Inr x3"
    and y1: "changeFreeElectron inc (as[a1 := x1, a3 := x3] ! a1) = Inr y1"
    and y3: "changeFreeElectron dec (as[a1 := x1, a3 := x3, a1 := y1] ! a3) = Inr y3"
  shows "map atom_frame (as[a1 := x1, a3 := x3, a1 := y1, a3 := y3]) = map atom_frame as"
proof -
  have fin: "as[a1 := x1, a3 := x3, a1 := y1, a3 := y3] = as[a1 := y1, a3 := y3]"
    using ne by (simp add: list_update_swap [of a3 a1])
  have f1: "a1 < length as \<longrightarrow> atom_frame y1 = atom_frame (as ! a1)"
  proof
    assume "a1 < length as"
    with ne y1 have "changeFreeElectron inc x1 = Inr y1" by simp
    from down_up [OF d u x1 this] show "atom_frame y1 = atom_frame (as ! a1)" .
  qed
  have f3: "a3 < length (as[a1 := y1]) \<longrightarrow> atom_frame y3 = atom_frame (as[a1 := y1] ! a3)"
  proof
    assume "a3 < length (as[a1 := y1])"
    with ne y3 have "changeFreeElectron dec x3 = Inr y3" by simp
    moreover from ne x3 have "changeFreeElectron inc (as ! a3) = Inr x3" by simp
    ultimately have "atom_frame y3 = atom_frame (as ! a3)" by (rule up_down [OF d u, rotated])
    with ne show "atom_frame y3 = atom_frame (as[a1 := y1] ! a3)" by simp
  qed
  have "map atom_frame (as[a1 := y1, a3 := y3]) = map atom_frame (as[a1 := y1])"
    by (rule map_update_same [OF f3])
  also have "\<dots> = map atom_frame as"
    by (rule map_update_same [OF f1])
  finally show ?thesis by (simp only: fin)
qed

lemma bonds_restored:
  assumes ne: "b12 \<noteq> b23" and l12: "b12 < length bs" and l23: "b23 < length bs"
    and x12: "increaseOrder (bs ! b12) = Inr x12"
    and x23: "decreaseOrder (bs[b12 := x12] ! b23) = Inr x23"
    and y12: "decreaseOrder (bs[b12 := x12, b23 := x23] ! b12) = Inr y12"
    and y23: "increaseOrder (bs[b12 := x12, b23 := x23, b12 := y12] ! b23) = Inr y23"
  shows "bs[b12 := x12, b23 := x23, b12 := y12, b23 := y23] = bs"
proof -
  have fin: "bs[b12 := x12, b23 := x23, b12 := y12, b23 := y23] = bs[b12 := y12, b23 := y23]"
    using ne by (simp add: list_update_swap [of b23 b12])
  from ne l12 y12 have "decreaseOrder x12 = Inr y12" by simp
  with increase_decrease [OF x12] have e12: "y12 = bs ! b12" by simp
  from ne x23 have d23: "decreaseOrder (bs ! b23) = Inr x23" by simp
  from ne l23 y23 have "increaseOrder x23 = Inr y23" by simp
  with decrease_increase [OF d23] have e23: "y23 = bs ! b23" by simp
  have r: "bs[b12 := y12, b23 := y23] = bs" by (simp add: e12 e23)
  show ?thesis by (simp only: fin r)
qed

lemma shift_path_frame:
  assumes d: "counts_down dec" and u: "counts_up inc"
    and ok: "path_ok (s_bonds s) p"
    and sh: "shift_path inc dec s p = Inr (isomer, s')"
  shows "frame s' = frame s"
proof -
  obtain a1 a2 a3 b12 b23 where p: "p = (a1, a2, a3, b12, b23)" by (cases p)
  from ok p have ne: "a1 \<noteq> a3" and nb: "b12 \<noteq> b23"
    and l12: "b12 < length (s_bonds s)" and l23: "b23 < length (s_bonds s)"
    by (simp_all add: path_ok_def)
  from sh p have sh': "shift_path inc dec s (a1, a2, a3, b12, b23) = Inr (isomer, s')"
    by (simp only:)
  from sh' [unfolded shift_path.simps ebind_Inr_iff] obtain s1 s2 s3 s4 s5 s6 s7 where
      e1: "on_atom (changeFreeElectron dec) a1 s = Inr s1"
    and e2: "on_atom (changeFreeElectron inc) a3 s1 = Inr s2"
    and e3: "on_bond increaseOrder b12 s2 = Inr s3"
    and e4: "on_bond decreaseOrder b23 s3 = Inr s4"
    and e5: "on_atom (changeFreeElectron inc) a1 s4 = Inr s5"
    and e6: "on_atom (changeFreeElectron dec) a3 s5 = Inr s6"
    and e7: "on_bond decreaseOrder b12 s6 = Inr s7"
    and e8: "on_bond increaseOrder b23 s7 = Inr s'"
    by auto
  from e1 obtain x1 where x1: "changeFreeElectron dec (s_atoms s ! a1) = Inr x1"
    and s1: "s1 = s\<lparr>s_atoms := (s_atoms s)[a1 := x1]\<rparr>"
    unfolding on_atom_Inr by blast
  from e2 s1 obtain x3 where x3: "changeFreeElectron inc ((s_atoms s)[a1 := x1] ! a3) = Inr x3"
    and s2: "s2 = s\<lparr>s_atoms := (s_atoms s)[a1 := x1, a3 := x3]\<rparr>"
    unfolding on_atom_Inr by auto
  from e3 s2 obtain x12 where x12: "increaseOrder (s_bonds s ! b12) = Inr x12"
    and s3: "s3 = s\<lparr>s_atoms := (s_atoms s)[a1 := x1, a3 := x3],
                   s_bonds := (s_bonds s)[b12 := x12]\<rparr>"
    unfolding on_bond_Inr by auto
  from e4 s3 obtain x23 where x23: "decreaseOrder ((s_bonds s)[b12 := x12] ! b23) = Inr x23"
    and s4: "s4 = s\<lparr>s_atoms := (s_atoms s)[a1 := x1, a3 := x3],
                   s_bonds := (s_bonds s)[b12 := x12, b23 := x23]\<rparr>"
    unfolding on_bond_Inr by auto
  from e5 s4 obtain y1 where y1: "changeFreeElectron inc ((s_atoms s)[a1 := x1, a3 := x3] ! a1) = Inr y1"
    and s5: "s5 = s\<lparr>s_atoms := (s_atoms s)[a1 := x1, a3 := x3, a1 := y1],
                   s_bonds := (s_bonds s)[b12 := x12, b23 := x23]\<rparr>"
    unfolding on_atom_Inr by auto
  from e6 s5 obtain y3 where y3: "changeFreeElectron dec ((s_atoms s)[a1 := x1, a3 := x3, a1 := y1] ! a3) = Inr y3"
    and s6: "s6 = s\<lparr>s_atoms := (s_atoms s)[a1 := x1, a3 := x3, a1 := y1, a3 := y3],
                   s_bonds := (s_bonds s)[b12 := x12, b23 := x23]\<rparr>"
    unfolding on_atom_Inr by auto
  from e7 s6 obtain y12 where y12: "decreaseOrder ((s_bonds s)[b12 := x12, b23 := x23] ! b12) = Inr y12"
    and s7: "s7 = s\<lparr>s_atoms := (s_atoms s)[a1 := x1, a3 := x3, a1 := y1, a3 := y3],
                   s_bonds := (s_bonds s)[b12 := x12, b23 := x23, b12 := y12]\<rparr>"
    unfolding on_bond_Inr by auto
  from e8 s7 obtain y23 where y23: "increaseOrder ((s_bonds s)[b12 := x12, b23 := x23, b12 := y12] ! b23) = Inr y23"
    and s': "s' = s\<lparr>s_atoms := (s_atoms s)[a1 := x1, a3 := x3, a1 := y1, a3 := y3],
                   s_bonds := (s_bonds s)[b12 := x12, b23 := x23, b12 := y12, b23 := y23]\<rparr>"
    unfolding on_bond_Inr by auto
  from atoms_restored [OF d u ne x1 x3 y1 y3] bonds_restored [OF nb l12 l23 x12 x23 y12 y23] s'
  show ?thesis by (simp add: frame_def)
qed

lemma frame_bonds: "frame s' = frame s \<Longrightarrow> s_bonds s' = s_bonds s"
  by (simp add: frame_def)

lemma paths_loop_frame:
  assumes d: "counts_down dec" and u: "counts_up inc"
  shows "\<forall>p \<in> set ps. path_ok (s_bonds s) p \<Longrightarrow>
         paths_loop inc dec s ps = Inr (isomers, s') \<Longrightarrow> frame s' = frame s"
proof (induction ps arbitrary: s isomers)
  case Nil
  then show ?case by simp
next
  case (Cons p ps)
  from Cons.prems(2) obtain isomer s1 rest where
    sh: "shift_path inc dec s p = Inr (isomer, s1)" and
    lp: "paths_loop inc dec s1 ps = Inr (rest, s')"
    by (auto simp: ebind_Inr_iff simp del: shift_path.simps)
  from Cons.prems(1) have "path_ok (s_bonds s) p" by simp
  from shift_path_frame [OF d u this sh] have f1: "frame s1 = frame s" .
  with Cons.prems(1) have "\<forall>p \<in> set ps. path_ok (s_bonds s1) p"
    by (simp add: frame_bonds [OF f1])
  from Cons.IH [OF this lp] f1 show ?case by simp
qed

lemma joins_distinct:
  "joins b a1 a2 \<Longrightarrow> joins b a2 a3 \<Longrightarrow> a3 = a1"
  by (auto simp: joins_def)

lemma findAll_path_ok:
  assumes "findAllDelocalizationPaths s a = Inr ps"
  shows "\<forall>p \<in> set ps. path_ok (s_bonds s) p"
proof -
  from assms obtain n where n: "electronState_order (s_atoms s ! a) = Inr n"
    and r: "(if n \<le> 0 then Inr [] else paths_outer s a (getBonds s a)) = Inr ps"
    by (auto simp: findAllDelocalizationPaths_def ebind_Inr_iff)
  show ?thesis
  proof (cases "n \<le> 0")
    case True
    with r show ?thesis by simp
  next
    case False
    with r have "paths_outer s a (getBonds s a) = Inr ps" by simp
    note st = paths_outer_set [OF this]
    show ?thesis
    proof
      fix p assume "p \<in> set ps"
      with st obtain a2 a3 b12 b23 where p: "p = (a, a2, a3, b12, b23)"
        and m12: "(a2, b12) \<in> set (getBonds s a)"
        and m23: "(a3, b23) \<in> set (getBonds s a2)" and ne: "a3 \<noteq> a"
        by blast
      from m12 have l12: "b12 < length (s_bonds s)" and j12: "joins (s_bonds s ! b12) a a2"
        by (simp_all add: in_getBonds)
      from m23 have l23: "b23 < length (s_bonds s)" and j23: "joins (s_bonds s ! b23) a2 a3"
        by (simp_all add: in_getBonds)
      from j12 j23 ne have "b12 \<noteq> b23" using joins_distinct by blast
      with l12 l23 ne p show "path_ok (s_bonds s) p" by (auto simp: path_ok_def)
    qed
  qed
qed

lemma atoms_loop_frame:
  assumes d: "counts_down dec" and u: "counts_up inc"
  shows "atoms_loop inc dec s as = Inr (isomers, s') \<Longrightarrow> frame s' = frame s"
proof (induction as arbitrary: s isomers)
  case Nil
  then show ?case by simp
next
  case (Cons a as)
  from Cons.prems obtain ps is1 s1 is2 where
    fa: "findAllDelocalizationPaths s a = Inr ps" and
    pl: "paths_loop inc dec s ps = Inr (is1, s1)" and
    al: "atoms_loop inc dec s1 as = Inr (is2, s')"
    by (auto simp: ebind_Inr_iff simp del: shift_path.simps)
  from paths_loop_frame [OF d u findAll_path_ok [OF fa] pl] have "frame s1 = frame s" .
  with Cons.IH [OF al] show ?case by simp
qed

lemma map_proj: "map f xs = map f ys \<Longrightarrow> map (\<lambda>x. g (f x)) xs = map (\<lambda>x. g (f x)) ys"
proof -
  assume "map f xs = map f ys"
  then have "map g (map f xs) = map g (map f ys)" by simp
  then show ?thesis by (simp add: comp_def)
qed

text \<open>
  Claim C1. When the electron-state mutators raise and lower the free-electron count by
  one, then after \<open>getAdjacentResonanceIsomers\<close> has returned, the structure it was
  called on has, atom by atom, the free-electron counts it had before, and the same
  bonds with the same endpoints and bond types; the types, charges and labels of the
  atoms are as before too.
\<close>

theorem resonance_restores_input:
  assumes "counts_up inc" and "counts_down dec"
    and "getAdjacentResonanceIsomers inc dec s = Inr (isomers, s')"
  shows "map electronState_order (s_atoms s') = map electronState_order (s_atoms s) \<and>
         s_bonds s' = s_bonds s \<and>
         map a_atomType (s_atoms s') = map a_atomType (s_atoms s) \<and>
         map a_charge (s_atoms s') = map a_charge (s_atoms s) \<and>
         map a_label (s_atoms s') = map a_label (s_atoms s)"
proof -
  from assms(3) obtain r :: int where
    "(if r > 0 then atoms_loop inc dec s [0..<length (s_atoms s)] else Inr ([], s)) = Inr (isomers, s')"
    by (auto simp: getAdjacentResonanceIsomers_def ebind_Inr_iff)
  then have "frame s' = frame s"
    using atoms_loop_frame [OF assms(2) assms(1)] by (auto split: if_splits)
  then have m: "map atom_frame (s_atoms s') = map atom_frame (s_atoms s)"
    and b: "s_bonds s' = s_bonds s"
    by (simp_all add: frame_def)
  from m have "map (\<lambda>a. fst (snd (atom_frame a))) (s_atoms s') = map (\<lambda>a. fst (snd (atom_frame a))) (s_atoms s)"
    "map (\<lambda>a. fst (atom_frame a)) (s_atoms s') = map (\<lambda>a. fst (atom_frame a)) (s_atoms s)"
    "map (\<lambda>a. fst (snd (snd (atom_frame a)))) (s_atoms s') = map (\<lambda>a. fst (snd (snd (atom_frame a)))) (s_atoms s)"
    "map (\<lambda>a. snd (snd (snd (atom_frame a)))) (s_atoms s') = map (\<lambda>a. snd (snd (snd (atom_frame a)))) (s_atoms s)"
    by (rule map_proj)+
  with b show ?thesis by (simp add: atom_frame_def del: electronState_order.simps)
qed

theorem resonance_restores_input_witness:
  "counts_up radical_up \<and> counts_down radical_down \<and>
   getAdjacentResonanceIsomers radical_up radical_down allyl = Inr ([allyl_shifted], allyl) \<and>
   map electronState_order (s_atoms allyl) = [Inr 0, Inr 0, Inr 1]"
proof -
  have u: "counts_up radical_up"
    by (simp add: counts_up_def radical_up_def es0_def es1_def)
  have d: "counts_down radical_down"
    by (simp add: counts_down_def radical_down_def es0_def es1_def)
  have e: "getAdjacentResonanceIsomers radical_up radical_down allyl = Inr ([allyl_shifted], allyl)"
    by code_simp
  have m: "map electronState_order (s_atoms allyl) = [Inr 0, Inr 0, Inr 1]"
    by code_simp
  from resonance_restores_input [OF u d e] u d e m show ?thesis by simp
qed

section \<open>Atom-type inference\<close>

lemma reconcile_adopts:
  "reconcile reg s i t sg = (if adopts t sg then setAtomType reg s i sg else Inr s)"
proof -
  obtain l y where l: "at_label t = l" and y: "at_symbol t = y" by simp
  show ?thesis
    unfolding reconcile_def adopts_def l y
    by (cases "l = sg"; cases "sg = y"; cases "sg = ''Cd''"; cases "l = ''Cbf''";
        cases "l = ''Cdd''"; cases "l = y"; cases "l = ''Cd''"; simp)
qed

lemma nth_beyond_eq:
  "length xs = length ys \<Longrightarrow> length xs \<le> n \<Longrightarrow> xs ! n = ys ! n"
proof (induction xs arbitrary: ys n)
  case Nil
  then show ?case by simp
next
  case (Cons x xs)
  then obtain y ys' where ys: "ys = y # ys'" by (cases ys) auto
  from Cons.prems obtain m where n: "n = Suc m" by (cases n) auto
  from Cons.prems ys n have "xs ! m = ys' ! m" by (intro Cons.IH) auto
  with ys n show ?case by simp
qed

lemma elems_nth:
  assumes "elems a = elems b"
  shows "element_symbol (s_atoms a ! j) = element_symbol (s_atoms b ! j)"
proof -
  from assms have len: "length (s_atoms a) = length (s_atoms b)"
    by (metis elems_def length_map)
  show ?thesis
  proof (cases "j < length (s_atoms a)")
    case True
    with assms len show ?thesis
      by (metis elems_def nth_map)
  next
    case False
    with len have "s_atoms a ! j = s_atoms b ! j"
      by (intro nth_beyond_eq) auto
    then show ?thesis by simp
  qed
qed

lemma getBonds_cong: "s_bonds a = s_bonds b \<Longrightarrow> getBonds a i = getBonds b i"
  by (simp add: getBonds_def)

lemma count_bond_cong:
  assumes "s_bonds a = s_bonds b" "elems a = elems b"
  shows "count_bond a i c x = count_bond b i c x"
proof -
  obtain a2 k where x: "x = (a2, k)" by (cases x)
  from elems_nth [OF assms(2)] have
    "isCarbon (s_atoms a ! i) = isCarbon (s_atoms b ! i)"
    "isOxygen (s_atoms a ! a2) = isOxygen (s_atoms b ! a2)"
    by (simp_all add: isCarbon_def isOxygen_def del: element_symbol.simps)
  with assms(1) x show ?thesis by (simp del: bondType_of.simps cong: if_cong)
qed

lemma efold_cong: "(\<And>s x. f s x = g s x) \<Longrightarrow> efold f s xs = efold g s xs"
  by (induction xs arbitrary: s) simp_all

lemma count_bonds_cong:
  assumes "s_bonds a = s_bonds b" "elems a = elems b"
  shows "count_bonds a i = count_bonds b i"
  unfolding count_bonds_def getBonds_cong [OF assms(1)]
  by (rule efold_cong) (rule count_bond_cong [OF assms])

lemma suggest_cases:
  "suggest sy c = sy \<or>
   sy = ''C'' \<and> suggest sy c \<in> set [''Ct'', ''Cs'', ''Cdd'', ''CO'', ''Cds'', ''Cd'', ''Cb'', ''Cbf''] \<or>
   sy = ''O'' \<and> suggest sy c \<in> set [''Os'', ''Od'']"
  by (simp add: suggest_def)

lemma registry_entry:
  assumes "registry_ok reg" "suggest sy c \<noteq> sy" "reg (suggest sy c) = Some t"
  shows "at_label t = suggest sy c \<and> at_symbol t = sy"
proof -
  from suggest_cases [of sy c] assms(2) have
    "sy = ''C'' \<and> suggest sy c \<in> set [''Ct'', ''Cs'', ''Cdd'', ''CO'', ''Cds'', ''Cd'', ''Cb'', ''Cbf''] \<or>
     sy = ''O'' \<and> suggest sy c \<in> set [''Os'', ''Od'']" by blast
  with assms(1) have "entry_ok reg sy (suggest sy c)"
    unfolding registry_ok_def list_all_iff by blast
  with assms(3) show ?thesis by (simp add: entry_ok_def)
qed

lemma elems_length: "elems a = elems b \<Longrightarrow> length (s_atoms a) = length (s_atoms b)"
  by (metis elems_def length_map)

lemma updateAtomType_resolved:
  assumes "a_atomType (s_atoms s ! i) = [t]" "\<not> generic t" "count_bonds s i = Inr c"
  shows "updateAtomType reg s i =
         (if adopts t (suggest (at_symbol t) c) then setAtomType reg s i (suggest (at_symbol t) c)
          else Inr s)"
  using assms by (simp add: updateAtomType_def generic_def reconcile_adopts)

lemma settled_step: "settled s i \<Longrightarrow> updateAtomType reg s i = Inr s"
proof (cases "a_atomType (s_atoms s ! i)")
  case Nil
  then show ?thesis by (simp add: updateAtomType_def)
next
  case (Cons t ts)
  assume st: "settled s i"
  show ?thesis
  proof (cases ts)
    case (Cons u us)
    with \<open>a_atomType (s_atoms s ! i) = t # ts\<close> show ?thesis
      by (simp add: updateAtomType_def)
  next
    case Nil
    with \<open>a_atomType (s_atoms s ! i) = t # ts\<close> have ty: "a_atomType (s_atoms s ! i) = [t]"
      by simp
    show ?thesis
    proof (cases "generic t")
      case True
      with ty show ?thesis by (simp add: updateAtomType_def generic_def)
    next
      case False
      with st ty obtain c where c: "count_bonds s i = Inr c"
        and n: "\<not> adopts t (suggest (at_symbol t) c)"
        by (auto simp: settled_def)
      from updateAtomType_resolved [OF ty False c] n show ?thesis by simp
    qed
  qed
qed

lemma settled_cong:
  assumes "s_bonds a = s_bonds b" "elems a = elems b" "s_atoms a ! i = s_atoms b ! i"
  shows "settled a i = settled b i"
  unfolding settled_def count_bonds_cong [OF assms(1,2), of i] assms(3) ..

lemma step_result:
  assumes ok: "registry_ok reg" and i: "i < length (s_atoms s)"
    and st: "updateAtomType reg s i = Inr s'"
  shows "settled s' i \<and> s_bonds s' = s_bonds s \<and> elems s' = elems s \<and>
         (\<forall>j. j \<noteq> i \<longrightarrow> s_atoms s' ! j = s_atoms s ! j)"
proof -
  consider (unres) "\<forall>t. a_atomType (s_atoms s ! i) \<noteq> [t]"
    | (gen) t where "a_atomType (s_atoms s ! i) = [t]" "generic t"
    | (res) t where "a_atomType (s_atoms s ! i) = [t]" "\<not> generic t"
    by blast
  then show ?thesis
  proof cases
    case unres
    then have "settled s i"
      by (auto simp: settled_def split: list.splits)
    with st settled_step [of s i reg] show ?thesis by simp
  next
    case gen
    then have "settled s i" by (simp add: settled_def)
    with st settled_step [of s i reg] show ?thesis by simp
  next
    case res
    from st res obtain c where c: "count_bonds s i = Inr c"
      by (auto simp: updateAtomType_def generic_def ebind_Inr_iff)
    let ?sg = "suggest (at_symbol t) c"
    note up = updateAtomType_resolved [OF res c, of reg]
    show ?thesis
    proof (cases "adopts t ?sg")
      case False
      with res c have "settled s i" by (simp add: settled_def)
      with st settled_step [of s i reg] show ?thesis by simp
    next
      case True
      with up st obtain t' where t': "reg ?sg = Some t'"
        and s': "s' = s\<lparr>s_atoms := (s_atoms s)[i := (s_atoms s ! i)\<lparr>a_atomType := [t']\<rparr>]\<rparr>"
        by (auto simp: setAtomType_def split: option.splits)
      from True have "?sg \<noteq> at_symbol t" by (simp add: adopts_def)
      from registry_entry [OF ok this t'] have lt: "at_label t' = ?sg" and sy: "at_symbol t' = at_symbol t"
        by simp_all
      from s' have b: "s_bonds s' = s_bonds s" by simp
      from s' i res sy have e: "elems s' = elems s"
        by (simp add: elems_def map_update list_update_same_conv)
      from s' have o: "\<forall>j. j \<noteq> i \<longrightarrow> s_atoms s' ! j = s_atoms s ! j" by simp
      from s' i have ty: "a_atomType (s_atoms s' ! i) = [t']" by simp
      from count_bonds_cong [OF b e, of i] c have "count_bonds s' i = Inr c" by simp
      moreover from lt sy have "\<not> adopts t' (suggest (at_symbol t') c)" by (simp add: adopts_def)
      ultimately have "settled s' i" using ty by (simp add: settled_def)
      with b e o show ?thesis by simp
    qed
  qed
qed

lemma loop_result:
  assumes ok: "registry_ok reg"
  shows "efold (updateAtomType reg) s is = Inr s' \<Longrightarrow> distinct is \<Longrightarrow>
         \<forall>i \<in> set is. i < length (s_atoms s) \<Longrightarrow>
         s_bonds s' = s_bonds s \<and> elems s' = elems s \<and>
         (\<forall>j. j \<notin> set is \<longrightarrow> s_atoms s' ! j = s_atoms s ! j) \<and>
         (\<forall>i \<in> set is. settled s' i)"
proof (induction "is" arbitrary: s)
  case Nil
  then show ?case by simp
next
  case (Cons i "is")
  from Cons.prems(1) obtain s1 where st: "updateAtomType reg s i = Inr s1"
    and rest: "efold (updateAtomType reg) s1 is = Inr s'"
    by (auto simp: ebind_Inr_iff)
  from Cons.prems(3) have i: "i < length (s_atoms s)" by simp
  from step_result [OF ok i st] have s1: "settled s1 i" "s_bonds s1 = s_bonds s"
    "elems s1 = elems s" "\<forall>j. j \<noteq> i \<longrightarrow> s_atoms s1 ! j = s_atoms s ! j"
    by simp_all
  from Cons.prems(2) have d: "distinct is" and ni: "i \<notin> set is" by simp_all
  from Cons.prems(3) elems_length [OF s1(3)] have "\<forall>i \<in> set is. i < length (s_atoms s1)"
    by simp
  from Cons.IH [OF rest d this] have r: "s_bonds s' = s_bonds s1" "elems s' = elems s1"
    "\<forall>j. j \<notin> set is \<longrightarrow> s_atoms s' ! j = s_atoms s1 ! j" "\<forall>i \<in> set is. settled s' i"
    by simp_all
  from r(3) ni have "s_atoms s' ! i = s_atoms s1 ! i" by simp
  from settled_cong [OF r(1) r(2) this] s1(1) have "settled s' i" by simp
  with r s1 show ?case by auto
qed

lemma second_pass:
  "\<forall>i \<in> set is. settled s i \<Longrightarrow> efold (updateAtomType reg) s is = Inr s"
  by (induction "is") (simp_all add: settled_step)

text \<open>
  Claim C8. With a table of atom types that is in order, a call of \<open>updateAtomTypes\<close>
  that returns leaves a structure on which a second call changes nothing: the second
  call returns the structure it was given.
\<close>

theorem updateAtomTypes_idempotent:
  assumes "registry_ok reg" and "updateAtomTypes reg s = Inr s'"
  shows "updateAtomTypes reg s' = Inr s'"
proof -
  from assms(2) have "efold (updateAtomType reg) s [0..<length (s_atoms s)] = Inr s'"
    by (simp add: updateAtomTypes_def)
  from loop_result [OF assms(1) this] have e: "elems s' = elems s"
    and st: "\<forall>i \<in> set [0..<length (s_atoms s)]. settled s' i"
    by simp_all
  from elems_length [OF e] st have "\<forall>i \<in> set [0..<length (s_atoms s')]. settled s' i"
    by simp
  from second_pass [OF this] show ?thesis by (simp add: updateAtomTypes_def)
qed

theorem updateAtomTypes_idempotent_witness:
  "registry_ok example_atomTypes \<and>
   updateAtomTypes example_atomTypes methanal = Inr methanal_typed \<and>
   updateAtomTypes example_atomTypes methanal_typed = Inr methanal_typed"
proof -
  have r: "registry_ok example_atomTypes" by code_simp
  have e: "updateAtomTypes example_atomTypes methanal = Inr methanal_typed" by code_simp
  from updateAtomTypes_idempotent [OF r e] r e show ?thesis by simp
qed

lemma efold_append:
  "efold f s (xs @ ys) = ebind (efold f s xs) (\<lambda>s1. efold f s1 ys)"
  by (induction xs arbitrary: s) (simp_all add: ebind_def split: sum.splits)

lemma upt_split: "i < n \<Longrightarrow> [0..<n] = [0..<i] @ i # [Suc i..<n]"
  by (metis less_imp_le_nat upt_add_eq_append upt_conv_Cons le0 le_add_diff_inverse plus_nat.add_0)

text \<open>
  What the loop does for an atom whose type is its bare element. Take a resolved atom
  that is not generic and whose type is its bare element, and let the suggestion computed
  for it differ from the element symbol. If the suggestion is not \<^verbatim>\<open>Cd\<close>, then after
  \<open>updateAtomTypes\<close> the atom has the type that the table holds under the suggestion,
  and its label is the suggestion. If the suggestion is \<^verbatim>\<open>Cd\<close>, the atom keeps its type.
\<close>

lemma bare_element_adopts_other_suggestions:
  assumes ok: "registry_ok reg" and run: "updateAtomTypes reg s = Inr s'"
    and i: "i < length (s_atoms s)"
    and ty: "a_atomType (s_atoms s ! i) = [t]" and ng: "\<not> generic t"
    and bare: "at_label t = at_symbol t"
    and sg: "suggested s i = Inr sg" and diff: "sg \<noteq> at_symbol t"
  shows "(sg \<noteq> ''Cd'' \<longrightarrow>
           (\<exists>t'. reg sg = Some t' \<and> at_label t' = sg \<and> a_atomType (s_atoms s' ! i) = [t'])) \<and>
         (sg = ''Cd'' \<longrightarrow> a_atomType (s_atoms s' ! i) = [t])"
proof -
  let ?n = "length (s_atoms s)"
  from run upt_split [OF i] obtain sa sb where
    pre: "efold (updateAtomType reg) s [0..<i] = Inr sa" and
    st: "updateAtomType reg sa i = Inr sb" and
    post: "efold (updateAtomType reg) sb [Suc i..<?n] = Inr s'"
    by (auto simp: updateAtomTypes_def efold_append ebind_Inr_iff)
  from loop_result [OF ok pre] i have a: "s_bonds sa = s_bonds s" "elems sa = elems s"
    "s_atoms sa ! i = s_atoms s ! i"
    by simp_all
  from elems_length [OF a(2)] i have ia: "i < length (s_atoms sa)" by simp
  from step_result [OF ok ia st] have "elems sb = elems sa" by simp
  with elems_length [of sb sa] ia have "\<forall>j \<in> set [Suc i..<?n]. j < length (s_atoms sb)"
    using elems_length [OF a(2)] by simp
  with loop_result [OF ok post] have keep: "s_atoms s' ! i = s_atoms sb ! i" by simp
  from sg ty obtain c where c: "count_bonds s i = Inr c" and sgc: "sg = suggest (at_symbol t) c"
    by (auto simp: suggested_def ebind_Inr_iff)
  from count_bonds_cong [OF a(1) a(2), of i] c have ca: "count_bonds sa i = Inr c" by simp
  from ty a(3) have tya: "a_atomType (s_atoms sa ! i) = [t]" by simp
  note up = updateAtomType_resolved [OF tya ng ca, of reg]
  from suggest_cases [of "at_symbol t" c] diff sgc have "at_symbol t = ''C'' \<or> at_symbol t = ''O''"
    by blast
  with bare diff have ad: "adopts t sg \<longleftrightarrow> sg \<noteq> ''Cd''"
    by (auto simp: adopts_def)
  show ?thesis
  proof (cases "sg = ''Cd''")
    case True
    with ad up st sgc have "sb = sa" by simp
    with keep tya True show ?thesis by simp
  next
    case False
    with ad up st sgc obtain t' where t': "reg sg = Some t'"
      and sb: "sb = sa\<lparr>s_atoms := (s_atoms sa)[i := (s_atoms sa ! i)\<lparr>a_atomType := [t']\<rparr>]\<rparr>"
      by (auto simp: setAtomType_def split: option.splits)
    from registry_entry [OF ok _ t' [unfolded sgc]] diff sgc have "at_label t' = sg" by simp
    moreover from sb ia keep have "a_atomType (s_atoms s' ! i) = [t']" by simp
    ultimately show ?thesis using t' False by simp
  qed
qed

text \<open>
  The second branch of the reconciliation tests \<^verbatim>\<open>atomType == 'Cd'\<close> besides the test
  that its comment names, so that a suggestion \<^verbatim>\<open>Cd\<close> is dropped whatever type the atom
  has, and the branch after it, for the types \<^verbatim>\<open>Cds\<close> and \<^verbatim>\<open>Cdd\<close>, is never reached.
\<close>

lemma Cd_suggestion_never_adopted: "reconcile reg s i t ''Cd'' = Inr s"
  by (simp add: reconcile_def)

text \<open>
  Claim C4, at an input on which the source breaks it: ethene without hydrogens. The
  first carbon is resolved and not generic, its type is the bare element \<^verbatim>\<open>C\<close>, and the
  suggestion for it is \<^verbatim>\<open>Cd\<close>, which differs from the element symbol. The claim has the
  type set to \<^verbatim>\<open>Cd\<close>; \<open>updateAtomTypes\<close> leaves the structure as it is, and the type of
  the atom is not \<^verbatim>\<open>Cd\<close>.
\<close>

theorem bare_carbon_Cd_not_adopted:
  "a_atomType (s_atoms ethene ! 0) = [carbon] \<and> \<not> generic carbon \<and>
   at_label carbon = at_symbol carbon \<and>
   suggested ethene 0 = Inr ''Cd'' \<and> ''Cd'' \<noteq> at_symbol carbon \<and>
   updateAtomTypes example_atomTypes ethene = Inr ethene \<and>
   map at_label (a_atomType (s_atoms ethene ! 0)) \<noteq> [''Cd'']"
  by code_simp

section \<open>The adjacency-list parser\<close>

text \<open>
  Claim C7, at the input on which the source breaks it. For the empty string
  \<^verbatim>\<open>lines[0]\<close> raises inside the \<^verbatim>\<open>try\<close> statement before \<^verbatim>\<open>label\<close> is bound, and the
  handler, which reads \<^verbatim>\<open>label\<close>, raises \<^verbatim>\<open>UnboundLocalError\<close>: an error that is not the
  invalid-adjacency-list exception leaves the parser.
\<close>

theorem empty_adjacency_list_escapes:
  "fromAdjacencyList ch self [] = (Some UnboundLocalError, self)"
  by (simp add: fromAdjacencyList_def parse_def py_splitlines_def py_item_def)


lemma parse_label:
  "parse ch adjlist = Inr (label, st) \<Longrightarrow> py_item (py_splitlines adjlist) 0 = Inr label"
  by (auto simp: parse_def Let_def split: sum.splits)














lemma efold_invariant:
  assumes "\<And>s x s'. P s \<Longrightarrow> f s x = Inr s' \<Longrightarrow> P s'"
  shows "P s \<Longrightarrow> efold f s xs = Inr s' \<Longrightarrow> P s'"
proof (induction xs arbitrary: s)
  case Nil
  then show ?case by simp
next
  case (Cons x xs)
  from Cons.prems(2) obtain s1 where "f s x = Inr s1" "efold f s1 xs = Inr s'"
    by (auto simp: ebind_Inr_iff)
  with assms Cons.prems(1) Cons.IH show ?case by blast
qed

lemma set_dict_set: "set (dict_set k v d) \<subseteq> insert (k, v) (set d)"
  by (induction d) auto

lemma dict_get_mem: "dict_get d k = Inr v \<Longrightarrow> (k, v) \<in> set d"
  by (auto simp: dict_get_def split: option.splits dest: map_of_SomeD)

lemma chem_Bond_atoms: "chem_Bond ch ends t = Inr b \<Longrightarrow> b_atoms b = ends"
  by (auto simp: chem_Bond_def ebind_Inr_iff)

lemma parse_datum_in_range:
  assumes "in_range st" "parse_datum ch aid st datum = Inr st'"
  shows "in_range st'"
proof -
  obtain x c y where p: "py_partition (CHR '','') (py_inner (py_strip (CHR '','') datum)) = (x, c, y)"
    by (cases "py_partition (CHR '','') (py_inner (py_strip (CHR '','') datum))") auto
  from assms(2) p obtain aid2 btype st1 m where
    st1: "(case map_of (atomdict st) aid2 of
             Some atom2 \<Rightarrow>
               ebind (dict_get (atomdict st) aid) (\<lambda>atom1.
               ebind (chem_Bond ch (atom1, atom2) btype) (\<lambda>bond.
                 Inr (st\<lparr>adj_bonds := adj_bonds st @ [bond]\<rparr>)))
           | None \<Rightarrow> Inr st) = Inr st1"
    and st': "st' = st1\<lparr>bonddict := dict_set aid (dict_set aid2 btype m) (bonddict st1)\<rparr>"
    by (auto simp: parse_datum_def ebind_Inr_iff)
  have "in_range st1"
  proof (cases "map_of (atomdict st) aid2")
    case None
    with st1 assms(1) show ?thesis by simp
  next
    case (Some atom2)
    with st1 obtain atom1 bond where a1: "dict_get (atomdict st) aid = Inr atom1"
      and b: "chem_Bond ch (atom1, atom2) btype = Inr bond"
      and s: "st1 = st\<lparr>adj_bonds := adj_bonds st @ [bond]\<rparr>"
      by (auto simp: ebind_Inr_iff)
    from Some have "(aid2, atom2) \<in> set (atomdict st)" by (rule map_of_SomeD)
    with assms(1) have "atom2 < length (adj_atoms st)"
      by (auto simp: in_range_def list_all_iff)
    moreover from dict_get_mem [OF a1] assms(1) have "atom1 < length (adj_atoms st)"
      by (auto simp: in_range_def list_all_iff)
    ultimately show ?thesis
      using assms(1) s chem_Bond_atoms [OF b] by (simp add: in_range_def)
  qed
  with st' show ?thesis by (simp add: in_range_def)
qed

lemma parse_line_in_range:
  assumes "in_range st" "parse_line ch st line = Inr st'"
  shows "in_range st'"
proof (cases "length (py_split line) = 0")
  case True
  with assms show ?thesis by (simp add: parse_line_def)
next
  case False
  with assms(2) obtain aid atom k where
    f: "efold (parse_datum ch aid)
          (st\<lparr>adj_atoms := adj_atoms st @ [atom],
               atomdict := dict_set aid (length (adj_atoms st)) (atomdict st),
               bonddict := dict_set aid [] (bonddict st)\<rparr>)
          (drop k (py_split line)) = Inr st'"
    by (auto simp: parse_line_def Let_def ebind_Inr_iff split: if_splits)
  let ?st1 = "st\<lparr>adj_atoms := adj_atoms st @ [atom],
               atomdict := dict_set aid (length (adj_atoms st)) (atomdict st),
               bonddict := dict_set aid [] (bonddict st)\<rparr>"
  from assms(1) set_dict_set [of aid "length (adj_atoms st)" "atomdict st"]
  have "in_range ?st1"
    by (fastforce simp: in_range_def list_all_iff)
  from efold_invariant [where P = in_range, OF parse_datum_in_range this f]
  show ?thesis .
qed

lemma parse_in_range:
  assumes "parse ch adjlist = Inr (label, st)"
  shows "in_range st"
proof -
  let ?st0 = "\<lparr>adj_atoms = [], adj_bonds = [], atomdict = [], bonddict = []\<rparr>"
  from assms have f: "efold (parse_line ch) ?st0 (drop 1 (py_splitlines adjlist)) = Inr st"
    by (auto simp: parse_def Let_def split: sum.splits)
  have "in_range ?st0" by (simp add: in_range_def)
  from efold_invariant [where P = in_range, OF parse_line_in_range this f]
  show ?thesis .
qed

lemma add_atoms:
  "add_all addAtom g atoms = (None, g\<lparr>s_atoms := s_atoms g @ atoms\<rparr>)"
  by (induction atoms arbitrary: g) (simp_all add: addAtom_def)

lemma add_bonds:
  "list_all (\<lambda>b. fst (b_atoms b) < length (s_atoms g) \<and> snd (b_atoms b) < length (s_atoms g)) bonds
   \<Longrightarrow> fst (add_all addBond g bonds) = None"
  by (induction bonds arbitrary: g) (simp_all add: addBond_def)

lemma initialize_in_range:
  assumes "in_range st"
  shows "fst (initialize (adj_atoms st) (adj_bonds st)) = None"
  using assms add_bonds [of "\<lparr>s_atoms = adj_atoms st, s_bonds = []\<rparr>" "adj_bonds st"]
  by (simp add: initialize_def add_atoms in_range_def)

text \<open>
  The exceptions that can leave the parser: for the empty string the one of the handler
  itself, and for every other text the invalid-adjacency-list exception with the first
  line as its label.
\<close>

lemma py_splitlines_loop_Nil:
  "py_splitlines_loop False cur s = [] \<Longrightarrow> cur = [] \<and> s = []"
proof (induction s arbitrary: cur)
  case Nil
  then show ?case by (simp split: if_splits)
next
  case (Cons c cs)
  show ?case
  proof (cases "c = CHR 0x0A \<or> c = CHR 0x0D")
    case True
    with Cons.prems show ?thesis by (auto split: if_splits)
  next
    case False
    with Cons.prems have "py_splitlines_loop False (cur @ [c]) cs = []" by simp
    from Cons.IH [OF this] show ?thesis by simp
  qed
qed

lemma only_empty_input_escapes:
  assumes "fst (fromAdjacencyList ch self adjlist) = Some e"
  shows "adjlist = [] \<and> e = UnboundLocalError \<or>
         (\<exists>label. py_item (py_splitlines adjlist) 0 = Inr label \<and>
                   e = InvalidAdjacencyListException label)"
proof (cases "parse ch adjlist")
  case (Inl x)
  with assms have e: "e = x" by (simp add: fromAdjacencyList_def)
  show ?thesis
  proof (cases "py_item (py_splitlines adjlist) 0")
    case l: (Inl y)
    then have "py_splitlines adjlist = []"
      by (simp add: py_item_def split: if_splits)
    then have "adjlist = []"
      using py_splitlines_loop_Nil [of "[]" adjlist] by (simp add: py_splitlines_def)
    moreover from l Inl e have "e = UnboundLocalError"
      by (simp add: parse_def Let_def)
    ultimately show ?thesis by simp
  next
    case r: (Inr label)
    with Inl e have "e = InvalidAdjacencyListException label"
      by (auto simp: parse_def Let_def split: sum.splits)
    with r show ?thesis by simp
  qed
next
  case (Inr r)
  obtain label st where r: "r = (label, st)" by (cases r)
  from Inr r have "in_range st" by (simp add: parse_in_range)
  from initialize_in_range [OF this] Inr r assms
  have "e = InvalidAdjacencyListException label"
    by (simp add: fromAdjacencyList_def split: if_splits)
  with parse_label [of ch adjlist label st] Inr r show ?thesis by simp
qed

text \<open>
  Claim C6. Whenever \<open>fromAdjacencyList\<close> raises, the structure it was called on is as it
  was before the call. The structure is touched by \<open>initialize\<close> only, after the \<^verbatim>\<open>try\<close>
  statement and the consistency check, and on the atoms and bonds of the parser
  \<open>initialize\<close> does not raise, since every bond joins atoms of the local atom list.
\<close>

theorem failed_parse_leaves_structure:
  assumes "fst (fromAdjacencyList ch self adjlist) = Some e"
  shows "snd (fromAdjacencyList ch self adjlist) = self"
proof (cases "parse ch adjlist")
  case (Inl x)
  then show ?thesis by (simp add: fromAdjacencyList_def)
next
  case (Inr r)
  obtain label st where r: "r = (label, st)" by (cases r)
  show ?thesis
  proof (cases "consistent (bonddict st)")
    case False
    with Inr r show ?thesis by (simp add: fromAdjacencyList_def)
  next
    case True
    from Inr r have "in_range st" by (simp add: parse_in_range)
    from initialize_in_range [OF this] True Inr r assms show ?thesis
      by (simp add: fromAdjacencyList_def)
  qed
qed

theorem failed_parse_leaves_structure_witness:
  "fst (fromAdjacencyList example_chem ethane unmirrored_text) =
     Some (InvalidAdjacencyListException ''X'') \<and>
   snd (fromAdjacencyList example_chem ethane unmirrored_text) = ethane"
proof -
  have f: "fst (fromAdjacencyList example_chem ethane unmirrored_text) =
     Some (InvalidAdjacencyListException ''X'')" by code_simp
  from failed_parse_leaves_structure [OF f] f show ?thesis by simp
qed

section \<open>Writing and reading back\<close>

text \<open>
  Claim C2, at an input on which the source breaks it. The text \<open>ambiguous_text\<close> is read
  into a structure whose first atom holds the electron states \<^verbatim>\<open>0\<close> and \<^verbatim>\<open>1\<close>. Written with
  the label \<^verbatim>\<open>X\<close>, the set of electron states is followed by the first bond descriptor
  without a blank, and reading the written text raises the invalid-adjacency-list
  exception: no structure comes back.
\<close>

theorem ambiguous_state_round_trip_fails:
  "fromAdjacencyList example_chem empty_structure ambiguous_text = (None, ambiguous_structure) \<and>
   toAdjacencyList ambiguous_structure ''X'' = Inr ambiguous_written \<and>
   fromAdjacencyList example_chem empty_structure ambiguous_written =
     (Some (InvalidAdjacencyListException ''X''), empty_structure)"
  by code_simp

end
